theory Spec2Isabelle
  imports Main "HOL-Library.AList"
begin

section \<open>JavaScript values\<close>

text \<open>
  The values the server handles at run time: tool arguments and HTTP response bodies are
  JSON, and an absent property reads as \<open>undefined\<close>. Numbers are modelled as integers
  (milliseconds, seconds, HTTP statuses); an object is the list of its own properties,
  read by key.
\<close>

datatype js =
    JUndefined
  | JNull
  | JBool bool
  | JNum int
  | JStr string
  | JArr "js list"
  | JObj "(string \<times> js) list"

text \<open>Truthiness, as \<open>!x\<close>, \<open>x || y\<close> and \<open>if (x)\<close> decide it.\<close>

fun truthy :: "js \<Rightarrow> bool" where
  "truthy JUndefined = False"
| "truthy JNull = False"
| "truthy (JBool b) = b"
| "truthy (JNum n) = (n \<noteq> 0)"
| "truthy (JStr s) = (s \<noteq> [])"
| "truthy (JArr xs) = True"
| "truthy (JObj kvs) = True"

text \<open>Reading property \<open>k\<close> of \<open>v\<close>, for the keys used here; \<open>undefined\<close> where there is none.\<close>

fun get_prop :: "js \<Rightarrow> string \<Rightarrow> js" where
  "get_prop (JObj kvs) k = (case map_of kvs k of Some v \<Rightarrow> v | None \<Rightarrow> JUndefined)"
| "get_prop v k = JUndefined"

text \<open>\<open>k in v\<close> for an object \<open>v\<close>.\<close>

fun has_key :: "js \<Rightarrow> string \<Rightarrow> bool" where
  "has_key (JObj kvs) k = (map_of kvs k \<noteq> None)"
| "has_key v k = False"

text \<open>A value of type \<open>string | undefined\<close> is a \<open>string option\<close>.\<close>

fun truthy_str :: "string option \<Rightarrow> bool" where
  "truthy_str None = False"
| "truthy_str (Some s) = (s \<noteq> [])"


text \<open>
  Decimal rendering of a number inside a template literal. \<open>digit_char\<close> is applied to
  digits below 10 only.
\<close>

definition digit_char :: "nat \<Rightarrow> char" where
  "digit_char d = ''0123456789'' ! d"

function decimal :: "nat \<Rightarrow> string" where
  "decimal n = (if n < 10 then [digit_char n] else decimal (n div 10) @ [digit_char (n mod 10)])"
  by pat_completeness auto
termination
  by (relation "measure id") auto

declare decimal.simps [simp del]

section \<open>The schema library\<close>

text \<open>
  The schemas of the server are written with the combinators of the zod library
  (version 3), a dependency of the server; this section gives the combinators the schemas
  use. A schema parses a value found at a path: the result has a status, the parsed
  value, and the issues raised. \<open>Valid\<close> is success; \<open>Dirty\<close> is a value of the
  right type that failed a check (a URL, a length bound, a refinement); \<open>Aborted\<close> is a
  value of the wrong type. \<open>safeParse\<close> succeeds on \<open>Valid\<close> only.
\<close>

datatype seg = Key string | Idx nat

type_synonym path = "seg list"

datatype issue_code =
  invalid_type | invalid_literal | invalid_enum_value | invalid_string | too_big | custom

text \<open>
  An issue carries its code and the path of the offending value. When every option of a
  union fails, the union raises one issue at its own path, which holds the issues of
  each option.
\<close>

datatype issue = Issue issue_code path | Invalid_union path "issue list list"

datatype parse_status = Valid | Dirty | Aborted

datatype parsed = Parsed (status_of: parse_status) (value_of: js) (issues_of: "issue list")

type_synonym schema = "path \<Rightarrow> js \<Rightarrow> parsed"

definition OK :: "js \<Rightarrow> parsed" where
  "OK v = Parsed Valid v []"

definition INVALID :: "issue_code \<Rightarrow> path \<Rightarrow> parsed" where
  "INVALID c p = Parsed Aborted JUndefined [Issue c p]"

definition z_string :: schema where
  "z_string p v = (case v of JStr s \<Rightarrow> OK v | _ \<Rightarrow> INVALID invalid_type p)"

text \<open>
  \<open>z.string().url()\<close> accepts the strings that the runtime's \<open>URL\<close> constructor accepts;
  that test is the parameter \<open>is_url\<close>.
\<close>

definition z_string_url :: "(string \<Rightarrow> bool) \<Rightarrow> schema" where
  "z_string_url is_url p v =
     (case v of
        JStr s \<Rightarrow> if is_url s then OK v else Parsed Dirty v [Issue invalid_string p]
      | _ \<Rightarrow> INVALID invalid_type p)"

definition z_number :: schema where
  "z_number p v = (case v of JNum n \<Rightarrow> OK v | _ \<Rightarrow> INVALID invalid_type p)"

definition z_boolean :: schema where
  "z_boolean p v = (case v of JBool b \<Rightarrow> OK v | _ \<Rightarrow> INVALID invalid_type p)"

definition z_unknown :: schema where
  "z_unknown p v = OK v"

definition z_literal :: "string \<Rightarrow> schema" where
  "z_literal lit p v = (if v = JStr lit then OK v else INVALID invalid_literal p)"

definition z_enum :: "string list \<Rightarrow> schema" where
  "z_enum vals p v =
     (case v of
        JStr s \<Rightarrow> if s \<in> set vals then OK v else INVALID invalid_enum_value p
      | _ \<Rightarrow> INVALID invalid_type p)"

definition z_optional :: "schema \<Rightarrow> schema" where
  "z_optional inner p v = (if v = JUndefined then OK JUndefined else inner p v)"

definition z_default :: "schema \<Rightarrow> js \<Rightarrow> schema" where
  "z_default inner d p v = inner p (if v = JUndefined then d else v)"

text \<open>
  An array parses every element, at the path extended by its index. The result is
  aborted when an element is; the issues of all elements are kept, after the issue of the
  length bound.
\<close>

definition merge_array :: "issue list \<Rightarrow> parsed list \<Rightarrow> parsed" where
  "merge_array pre rs =
     (let iss = pre @ concat (map issues_of rs)
      in if list_ex (\<lambda>r. status_of r = Aborted) rs then Parsed Aborted JUndefined iss
         else Parsed (if pre \<noteq> [] \<or> list_ex (\<lambda>r. status_of r = Dirty) rs then Dirty else Valid)
                (JArr (map value_of rs)) iss)"

definition z_array :: "schema \<Rightarrow> nat option \<Rightarrow> schema" where
  "z_array elem maxLength p v =
     (case v of
        JArr xs \<Rightarrow>
          merge_array
            (case maxLength of
               Some m \<Rightarrow> if length xs > m then [Issue too_big p] else []
             | None \<Rightarrow> [])
            (map (\<lambda>(i, x). elem (p @ [Idx i]) x) (enumerate 0 xs))
      | _ \<Rightarrow> INVALID invalid_type p)"

text \<open>
  An object parses the value under each key of its shape, in the order of the shape;
  keys outside the shape are dropped. A key is in the output when it is in the input or
  its parsed value is not \<open>undefined\<close>.
\<close>

type_synonym field_result = "string \<times> bool \<times> parsed"

definition zfield :: "string \<Rightarrow> schema \<Rightarrow> path \<Rightarrow> js \<Rightarrow> field_result" where
  "zfield k inner p v = (k, has_key v k, inner (p @ [Key k]) (get_prop v k))"

definition kept :: "field_result \<Rightarrow> (string \<times> js) list" where
  "kept f = (case f of (k, present, r) \<Rightarrow>
               if value_of r \<noteq> JUndefined \<or> present then [(k, value_of r)] else [])"

definition merge_object :: "field_result list \<Rightarrow> parsed" where
  "merge_object fs =
     (let rs = map (\<lambda>f. snd (snd f)) fs;
          iss = concat (map issues_of rs)
      in if list_ex (\<lambda>r. status_of r = Aborted) rs then Parsed Aborted JUndefined iss
         else Parsed (if list_ex (\<lambda>r. status_of r = Dirty) rs then Dirty else Valid)
                (JObj (concat (map kept fs))) iss)"

definition z_object :: "path \<Rightarrow> js \<Rightarrow> field_result list \<Rightarrow> parsed" where
  "z_object p v fs = (case v of JObj kvs \<Rightarrow> merge_object fs | _ \<Rightarrow> INVALID invalid_type p)"

text \<open>
  A union takes the results of its options, each parsed on its own: the first valid one
  wins; failing that, the first dirty one, with its issues; failing that, the union is
  aborted with one \<open>invalid_union\<close> issue.
\<close>

definition z_union :: "path \<Rightarrow> parsed list \<Rightarrow> parsed" where
  "z_union p rs =
     (case find (\<lambda>r. status_of r = Valid) rs of
        Some r \<Rightarrow> Parsed Valid (value_of r) []
      | None \<Rightarrow>
          (case find (\<lambda>r. status_of r = Dirty) rs of
             Some r \<Rightarrow> r
           | None \<Rightarrow>
               Parsed Aborted JUndefined
                 [Invalid_union p (filter (\<lambda>is. is \<noteq> []) (map issues_of rs))]))"

text \<open>
  A refinement runs its check on the parsed value unless the inner schema aborted; a
  failed check adds a \<open>custom\<close> issue at the given path below the value's own.
\<close>

definition z_refine :: "schema \<Rightarrow> (js \<Rightarrow> bool) \<Rightarrow> path \<Rightarrow> schema" where
  "z_refine inner check rpath p v =
     (let r = inner p v
      in if status_of r = Aborted then Parsed Aborted JUndefined (issues_of r)
         else if check (value_of r) then r
         else Parsed Dirty (value_of r) (issues_of r @ [Issue custom (p @ rpath)]))"

text \<open>\<open>schema.parse(v)\<close>: the parsed value, or the issues thrown as a \<open>ZodError\<close>.\<close>

definition parse :: "schema \<Rightarrow> js \<Rightarrow> issue list + js" where
  "parse sch v = (let r = sch [] v in if status_of r = Valid then Inr (value_of r) else Inl (issues_of r))"

text \<open>What the recursive schemas below are applied to: the elements of an array property.\<close>

fun elems :: "js \<Rightarrow> js list" where
  "elems (JArr xs) = xs"
| "elems v = []"

lemma z_array_cong [fundef_cong]:
  "v = v' \<Longrightarrow> m = m' \<Longrightarrow> p = p' \<Longrightarrow> (\<And>q x. x \<in> set (elems v') \<Longrightarrow> f q x = g q x)
   \<Longrightarrow> z_array f m p v = z_array g m' p' v'"
  by (cases v') (auto simp: z_array_def in_set_enumerate_eq intro!: arg_cong2[where f=merge_array])

lemma zfield_cong [fundef_cong]:
  "k = k' \<Longrightarrow> p = p' \<Longrightarrow> v = v' \<Longrightarrow> (\<And>q. f q (get_prop v' k') = g q (get_prop v' k'))
   \<Longrightarrow> zfield k f p v = zfield k' g p' v'"
  by (simp add: zfield_def)

lemma z_optional_cong [fundef_cong]:
  "p = p' \<Longrightarrow> v = v' \<Longrightarrow> (v' \<noteq> JUndefined \<Longrightarrow> f p' v' = g p' v')
   \<Longrightarrow> z_optional f p v = z_optional g p' v'"
  by (simp add: z_optional_def)

lemma size_get_prop [termination_simp]:
  "x \<in> set (elems (get_prop v k)) \<Longrightarrow> size x < size v"
proof (cases v)
  case (JObj kvs)
  assume x: "x \<in> set (elems (get_prop v k))"
  show ?thesis
  proof (cases "map_of kvs k")
    case None
    with x JObj show ?thesis by simp
  next
    case (Some w)
    then have "(k, w) \<in> set kvs" by (rule map_of_SomeD)
    then have "size w < size (JObj kvs)"
      by (induction kvs) auto
    moreover from x Some JObj have "size x < size w"
      by (cases w) (auto simp: less_Suc_eq_le size_list_estimation')
    ultimately show ?thesis using JObj by simp
  qed
qed simp_all

section \<open>The card schemas\<close>

definition TextBlockSchema :: schema where
  "TextBlockSchema p v = z_object p v
     [zfield ''type'' (z_literal ''TextBlock'') p v,
      zfield ''text'' z_string p v,
      zfield ''weight'' (z_optional (z_enum [''Default'', ''Lighter'', ''Bolder''])) p v,
      zfield ''size''
        (z_optional (z_enum [''Default'', ''Small'', ''Medium'', ''Large'', ''ExtraLarge''])) p v,
      zfield ''color''
        (z_optional (z_enum [''Default'', ''Dark'', ''Light'', ''Accent'', ''Good'', ''Warning'',
           ''Attention''])) p v,
      zfield ''wrap'' (z_optional z_boolean) p v,
      zfield ''isSubtle'' (z_optional z_boolean) p v,
      zfield ''maxLines'' (z_optional z_number) p v,
      zfield ''horizontalAlignment'' (z_optional (z_enum [''Left'', ''Center'', ''Right''])) p v,
      zfield ''spacing''
        (z_optional (z_enum [''None'', ''Small'', ''Default'', ''Medium'', ''Large'',
           ''ExtraLarge''])) p v,
      zfield ''separator'' (z_optional z_boolean) p v]"

definition ImageSchema :: "(string \<Rightarrow> bool) \<Rightarrow> schema" where
  "ImageSchema is_url p v = z_object p v
     [zfield ''type'' (z_literal ''Image'') p v,
      zfield ''url'' (z_string_url is_url) p v,
      zfield ''altText'' (z_optional z_string) p v,
      zfield ''size''
        (z_optional (z_enum [''Auto'', ''Stretch'', ''Small'', ''Medium'', ''Large''])) p v,
      zfield ''style'' (z_optional (z_enum [''Default'', ''Person''])) p v,
      zfield ''horizontalAlignment'' (z_optional (z_enum [''Left'', ''Center'', ''Right''])) p v,
      zfield ''width'' (z_optional z_string) p v,
      zfield ''height'' (z_optional z_string) p v]"

definition FactSchema :: schema where
  "FactSchema p v = z_object p v
     [zfield ''title'' z_string p v,
      zfield ''value'' z_string p v]"

definition FactSetSchema :: schema where
  "FactSetSchema p v = z_object p v
     [zfield ''type'' (z_literal ''FactSet'') p v,
      zfield ''facts'' (z_array FactSchema (Some 10)) p v,
      zfield ''spacing''
        (z_optional (z_enum [''None'', ''Small'', ''Default'', ''Medium'', ''Large'',
           ''ExtraLarge''])) p v,
      zfield ''separator'' (z_optional z_boolean) p v]"

definition ActionSchema :: schema where
  "ActionSchema p v = z_object p v
     [zfield ''type'' (z_enum [''Action.Submit'', ''Action.OpenUrl'', ''Action.ShowCard'']) p v,
      zfield ''title'' z_string p v,
      zfield ''data'' (z_optional z_unknown) p v,
      zfield ''url'' (z_optional z_string) p v,
      zfield ''style'' (z_optional (z_enum [''default'', ''positive'', ''destructive''])) p v]"

definition ActionSetSchema :: schema where
  "ActionSetSchema p v = z_object p v
     [zfield ''type'' (z_literal ''ActionSet'') p v,
      zfield ''actions'' (z_array ActionSchema None) p v]"

text \<open>
  \<open>CardElementSchema\<close> is the lazy union; it and the three schemas that hold card
  elements are defined together.
\<close>

fun CardElementSchema :: "(string \<Rightarrow> bool) \<Rightarrow> schema"
  and ColumnSchema :: "(string \<Rightarrow> bool) \<Rightarrow> schema"
  and ColumnSetSchema :: "(string \<Rightarrow> bool) \<Rightarrow> schema"
  and ContainerSchema :: "(string \<Rightarrow> bool) \<Rightarrow> schema" where
  "CardElementSchema is_url p v =
     z_union p
       [TextBlockSchema p v,
        ImageSchema is_url p v,
        FactSetSchema p v,
        ColumnSetSchema is_url p v,
        ContainerSchema is_url p v,
        ActionSetSchema p v]"
| "ColumnSchema is_url p v = z_object p v
     [zfield ''type'' (z_literal ''Column'') p v,
      zfield ''width'' (z_optional (\<lambda>q x. z_union q [z_string q x, z_number q x])) p v,
      zfield ''items'' (z_optional (z_array (CardElementSchema is_url) None)) p v,
      zfield ''verticalContentAlignment''
        (z_optional (z_enum [''Top'', ''Center'', ''Bottom''])) p v,
      zfield ''spacing''
        (z_optional (z_enum [''None'', ''Small'', ''Default'', ''Medium'', ''Large'',
           ''ExtraLarge''])) p v]"
| "ColumnSetSchema is_url p v = z_object p v
     [zfield ''type'' (z_literal ''ColumnSet'') p v,
      zfield ''columns'' (z_array (ColumnSchema is_url) None) p v,
      zfield ''spacing''
        (z_optional (z_enum [''None'', ''Small'', ''Default'', ''Medium'', ''Large'',
           ''ExtraLarge''])) p v,
      zfield ''separator'' (z_optional z_boolean) p v]"
| "ContainerSchema is_url p v = z_object p v
     [zfield ''type'' (z_literal ''Container'') p v,
      zfield ''items'' (z_array (CardElementSchema is_url) None) p v,
      zfield ''style''
        (z_optional (z_enum [''Default'', ''Emphasis'', ''Good'', ''Attention'', ''Warning''])) p v,
      zfield ''spacing''
        (z_optional (z_enum [''None'', ''Small'', ''Default'', ''Medium'', ''Large'',
           ''ExtraLarge''])) p v,
      zfield ''separator'' (z_optional z_boolean) p v]"

declare CardElementSchema.simps [simp del] ColumnSchema.simps [simp del]
  ColumnSetSchema.simps [simp del] ContainerSchema.simps [simp del]

definition AdaptiveCardSchema :: "(string \<Rightarrow> bool) \<Rightarrow> schema" where
  "AdaptiveCardSchema is_url p v = z_object p v
     [zfield ''type'' (z_literal ''AdaptiveCard'') p v,
      zfield ''version'' (z_default z_string (JStr ''1.4'')) p v,
      zfield ''body''
        (z_array
           (\<lambda>q x. z_union q
              [TextBlockSchema q x,
               ImageSchema is_url q x,
               FactSetSchema q x,
               ColumnSetSchema is_url q x,
               ContainerSchema is_url q x,
               ActionSetSchema q x])
           (Some 50)) p v,
      zfield ''actions'' (z_optional (z_array ActionSchema None)) p v,
      zfield ''$schema'' (z_optional z_string) p v]"

section \<open>The request schemas\<close>

definition PostMessageRequestSchema :: schema where
  "PostMessageRequestSchema p v = z_object p v
     [zfield ''text'' z_string p v,
      zfield ''thread_id'' (z_optional z_string) p v]"

definition PostRichMessageRequestSchema :: "(string \<Rightarrow> bool) \<Rightarrow> schema" where
  "PostRichMessageRequestSchema is_url =
     z_refine
       (\<lambda>p v. z_object p v
          [zfield ''text'' (z_optional z_string) p v,
           zfield ''card'' (z_optional (AdaptiveCardSchema is_url)) p v,
           zfield ''thread_id'' (z_optional z_string) p v])
       (\<lambda>data. truthy (get_prop data ''text'') \<or> truthy (get_prop data ''card''))
       [Key ''text'', Key ''card'']"

section \<open>The process: environment, network, token cache\<close>

datatype js_error =
    Error string      \<comment> \<open>\<open>throw new Error(message)\<close>\<close>
  | TypeError string  \<comment> \<open>raised by the runtime on a property read of \<open>null\<close>\<close>
  | Rejected string   \<comment> \<open>\<open>fetch\<close> rejected (network failure)\<close>

datatype http_body = FormBody "(string \<times> string) list" | JsonBody js

record http_request =
  url :: string
  http_method :: string
  headers :: "(string \<times> string) list"
  body :: http_body

text \<open>
  A response as the code reads it: \<open>response.status\<close>, \<open>response.text()\<close>, and
  \<open>response.json()\<close>, which is \<open>None\<close> when the body does not parse.
\<close>

record http_response =
  status :: nat
  text_of :: string
  json_of :: "js option"

definition ok :: "http_response \<Rightarrow> bool" where
  "ok r = (200 \<le> status r \<and> status r \<le> 299)"

type_synonym fetch = "http_request \<Rightarrow> js_error + http_response"
type_synonym env = "string \<Rightarrow> string option"

record token_cache =
  token :: js
  expiresAt :: int

text \<open>
  The module state: \<open>tokenCache\<close>, and what the process has done so far: the
  \<open>fetch\<close> calls it made and the lines it wrote with \<open>console.error\<close>.
\<close>

record state =
  tokenCache :: "token_cache option"
  requests :: "http_request list"
  log :: "(string \<times> string) list"

definition cache_fresh :: "int \<Rightarrow> state \<Rightarrow> bool" where
  "cache_fresh now s =
     (case tokenCache s of None \<Rightarrow> False
      | Some c \<Rightarrow> expiresAt c > now + 5 * 60 * 1000)"

definition tokenUrl :: string where
  "tokenUrl = ''https://login.microsoftonline.com/botframework.com/oauth2/v2.0/token''"

definition token_request :: "string \<Rightarrow> string \<Rightarrow> http_request" where
  "token_request appId appPassword =
     \<lparr> url = tokenUrl,
       http_method = ''POST'',
       headers = [(''Content-Type'', ''application/x-www-form-urlencoded'')],
       body = FormBody
         [(''grant_type'', ''client_credentials''),
          (''client_id'', appId),
          (''client_secret'', appPassword),
          (''scope'', ''https://api.botframework.com/.default'')] \<rparr>"

definition is_number :: "js \<Rightarrow> bool" where
  "is_number v = (case v of JNum n \<Rightarrow> True | _ \<Rightarrow> False)"

definition num_of :: "js \<Rightarrow> int" where
  "num_of v = (case v of JNum n \<Rightarrow> n | _ \<Rightarrow> 0)"

text \<open>
  \<open>getBotConnectorToken\<close>. The arguments are what the function reads from outside:
  \<open>fetch\<close>, \<open>process.env\<close> and \<open>Date.now()\<close>; the result is the returned token or
  the error thrown, with the state after the call. A parsed body that is \<open>null\<close> makes the
  property read on line 88 throw.
\<close>

definition getBotConnectorToken ::
  "fetch \<Rightarrow> env \<Rightarrow> int \<Rightarrow> state \<Rightarrow> (js_error + js) \<times> state" where
  "getBotConnectorToken fetch env now s =
     (if cache_fresh now s then (Inr (token (the (tokenCache s))), s)
      else
        let appId = env ''TEAMS_BOT_APP_ID'';
            appPassword = env ''TEAMS_BOT_APP_PASSWORD''
        in if \<not> truthy_str appId \<or> \<not> truthy_str appPassword then
             (Inl (Error ''TEAMS_BOT_APP_ID and TEAMS_BOT_APP_PASSWORD must be set''), s)
           else
             let req = token_request (the appId) (the appPassword);
                 s1 = s\<lparr>requests := requests s @ [req]\<rparr>
             in (case fetch req of
                   Inl e \<Rightarrow> (Inl e, s1)
                 | Inr response \<Rightarrow>
                     (if \<not> ok response then
                        (Inl (Error (''Failed to get Bot Connector token: '' @
                                     decimal (status response))),
                         s1\<lparr>log := log s1 @
                                    [(''[TeamsMCP] Token request failed:'', text_of response)]\<rparr>)
                      else
                        (case json_of response of
                           None \<Rightarrow>
                             (Inl (Error ''Failed to parse Bot Connector token response as JSON''),
                              s1)
                         | Some data \<Rightarrow>
                             (if data = JNull \<or> data = JUndefined then
                                (Inl (TypeError ''Cannot read properties of null''), s1)
                              else if \<not> truthy (get_prop data ''access_token'') \<or>
                                      \<not> is_number (get_prop data ''expires_in'') then
                                (Inl (Error
                                   ''Invalid token response: missing access_token or expires_in''),
                                 s1)
                              else
                                (Inr (get_prop data ''access_token''),
                                 s1\<lparr>tokenCache := Some
                                      \<lparr> token = get_prop data ''access_token'',
                                        expiresAt =
                                          now + num_of (get_prop data ''expires_in'') * 1000 \<rparr>\<rparr>))))))"

text \<open>\<open>String(v)\<close>, as a template literal renders a value.\<close>

fun js_string :: "js \<Rightarrow> string" and js_join :: "js list \<Rightarrow> string" where
  "js_string JUndefined = ''undefined''"
| "js_string JNull = ''null''"
| "js_string (JBool b) = (if b then ''true'' else ''false'')"
| "js_string (JNum n) = (if n < 0 then ''-'' @ decimal (nat (- n)) else decimal (nat n))"
| "js_string (JStr s) = s"
| "js_string (JArr xs) = js_join xs"
| "js_string (JObj kvs) = ''[object Object]''"
| "js_join [] = []"
| "js_join (x # xs) =
     (if x = JNull \<or> x = JUndefined then [] else js_string x) @
     (if xs = [] then [] else '','' @ js_join xs)"










section \<open>Typed cards\<close>

text \<open>
  The cards the schemas describe, as typed trees: the type \<open>AdaptiveCard\<close> that the
  source infers from \<open>AdaptiveCardSchema\<close>, on the input side (\<open>version\<close> may be absent).
  An optional property is an \<open>option\<close>; an enumerated property holds its string.
\<close>

record text_block =
  tb_text :: string
  tb_weight :: "string option"
  tb_size :: "string option"
  tb_color :: "string option"
  tb_wrap :: "bool option"
  tb_isSubtle :: "bool option"
  tb_maxLines :: "int option"
  tb_horizontalAlignment :: "string option"
  tb_spacing :: "string option"
  tb_separator :: "bool option"

record image =
  im_url :: string
  im_altText :: "string option"
  im_size :: "string option"
  im_style :: "string option"
  im_horizontalAlignment :: "string option"
  im_width :: "string option"
  im_height :: "string option"

record fact =
  f_title :: string
  f_value :: string

record action =
  a_type :: string
  a_title :: string
  a_data :: "js option"
  a_url :: "string option"
  a_style :: "string option"

datatype width = WidthStr string | WidthNum int

datatype card_element =
    TextBlock text_block
  | ImageNode image
  | FactSet (fs_facts: "fact list") (fs_spacing: "string option") (fs_separator: "bool option")
  | ColumnSet (cs_columns: "column list") (cs_spacing: "string option")
      (cs_separator: "bool option")
  | Container (ct_items: "card_element list") (ct_style: "string option")
      (ct_spacing: "string option") (ct_separator: "bool option")
  | ActionSet (as_actions: "action list")
and column =
    Column (col_width: "width option") (col_items: "card_element list option")
      (col_verticalContentAlignment: "string option") (col_spacing: "string option")

record adaptive_card =
  c_version :: "string option"
  c_body :: "card_element list"
  c_actions :: "action list option"
  c_schema :: "string option"

text \<open>
  The JavaScript value of a typed tree. An absent property is not a key of the object;
  the keys stand in the order of the schema's shape, which is the order of a parsed value.
\<close>

definition opt :: "('a \<Rightarrow> js) \<Rightarrow> 'a option \<Rightarrow> js" where
  "opt f x = (case x of None \<Rightarrow> JUndefined | Some a \<Rightarrow> f a)"

lemma opt_cong [fundef_cong]:
  "x = y \<Longrightarrow> (\<And>a. y = Some a \<Longrightarrow> f a = g a) \<Longrightarrow> opt f x = opt g y"
  by (simp add: opt_def split: option.splits)

definition defined_only :: "(string \<times> js) list \<Rightarrow> (string \<times> js) list" where
  "defined_only kvs = filter (\<lambda>kv. snd kv \<noteq> JUndefined) kvs"

definition js_of_text_block :: "text_block \<Rightarrow> js" where
  "js_of_text_block b = JObj (defined_only
     [(''type'', JStr ''TextBlock''),
      (''text'', JStr (tb_text b)),
      (''weight'', opt JStr (tb_weight b)),
      (''size'', opt JStr (tb_size b)),
      (''color'', opt JStr (tb_color b)),
      (''wrap'', opt JBool (tb_wrap b)),
      (''isSubtle'', opt JBool (tb_isSubtle b)),
      (''maxLines'', opt JNum (tb_maxLines b)),
      (''horizontalAlignment'', opt JStr (tb_horizontalAlignment b)),
      (''spacing'', opt JStr (tb_spacing b)),
      (''separator'', opt JBool (tb_separator b))])"

definition js_of_image :: "image \<Rightarrow> js" where
  "js_of_image i = JObj (defined_only
     [(''type'', JStr ''Image''),
      (''url'', JStr (im_url i)),
      (''altText'', opt JStr (im_altText i)),
      (''size'', opt JStr (im_size i)),
      (''style'', opt JStr (im_style i)),
      (''horizontalAlignment'', opt JStr (im_horizontalAlignment i)),
      (''width'', opt JStr (im_width i)),
      (''height'', opt JStr (im_height i))])"

definition js_of_fact :: "fact \<Rightarrow> js" where
  "js_of_fact f = JObj [(''title'', JStr (f_title f)), (''value'', JStr (f_value f))]"

definition js_of_action :: "action \<Rightarrow> js" where
  "js_of_action a = JObj (defined_only
     [(''type'', JStr (a_type a)),
      (''title'', JStr (a_title a)),
      (''data'', opt id (a_data a)),
      (''url'', opt JStr (a_url a)),
      (''style'', opt JStr (a_style a))])"

definition js_of_width :: "width \<Rightarrow> js" where
  "js_of_width w = (case w of WidthStr s \<Rightarrow> JStr s | WidthNum n \<Rightarrow> JNum n)"

fun js_of_element :: "card_element \<Rightarrow> js" and js_of_column :: "column \<Rightarrow> js" where
  "js_of_element (TextBlock b) = js_of_text_block b"
| "js_of_element (ImageNode i) = js_of_image i"
| "js_of_element (FactSet facts spacing separator) = JObj (defined_only
     [(''type'', JStr ''FactSet''),
      (''facts'', JArr (map js_of_fact facts)),
      (''spacing'', opt JStr spacing),
      (''separator'', opt JBool separator)])"
| "js_of_element (ColumnSet columns spacing separator) = JObj (defined_only
     [(''type'', JStr ''ColumnSet''),
      (''columns'', JArr (map js_of_column columns)),
      (''spacing'', opt JStr spacing),
      (''separator'', opt JBool separator)])"
| "js_of_element (Container items style spacing separator) = JObj (defined_only
     [(''type'', JStr ''Container''),
      (''items'', JArr (map js_of_element items)),
      (''style'', opt JStr style),
      (''spacing'', opt JStr spacing),
      (''separator'', opt JBool separator)])"
| "js_of_element (ActionSet actions) = JObj
     [(''type'', JStr ''ActionSet''),
      (''actions'', JArr (map js_of_action actions))]"
| "js_of_column (Column width items alignment spacing) = JObj (defined_only
     [(''type'', JStr ''Column''),
      (''width'', opt js_of_width width),
      (''items'', opt (\<lambda>xs. JArr (map js_of_element xs)) items),
      (''verticalContentAlignment'', opt JStr alignment),
      (''spacing'', opt JStr spacing)])"

definition js_of_card :: "adaptive_card \<Rightarrow> js" where
  "js_of_card c = JObj (defined_only
     [(''type'', JStr ''AdaptiveCard''),
      (''version'', opt JStr (c_version c)),
      (''body'', JArr (map js_of_element (c_body c))),
      (''actions'', opt (\<lambda>xs. JArr (map js_of_action xs)) (c_actions c)),
      (''$schema'', opt JStr (c_schema c))])"

text \<open>
  Well-formed typed trees: every enumerated property holds one of its literals, an image
  URL passes the URL test, a fact set has at most 10 facts, a card body at most 50
  elements. The arrays \<open>items\<close>, \<open>columns\<close> and \<open>actions\<close> carry no bound.
\<close>

definition one_of :: "string list \<Rightarrow> string option \<Rightarrow> bool" where
  "one_of vals x = (case x of None \<Rightarrow> True | Some s \<Rightarrow> s \<in> set vals)"

definition wf_text_block :: "text_block \<Rightarrow> bool" where
  "wf_text_block b \<longleftrightarrow>
     one_of [''Default'', ''Lighter'', ''Bolder''] (tb_weight b) \<and>
     one_of [''Default'', ''Small'', ''Medium'', ''Large'', ''ExtraLarge''] (tb_size b) \<and>
     one_of [''Default'', ''Dark'', ''Light'', ''Accent'', ''Good'', ''Warning'', ''Attention'']
       (tb_color b) \<and>
     one_of [''Left'', ''Center'', ''Right''] (tb_horizontalAlignment b) \<and>
     one_of [''None'', ''Small'', ''Default'', ''Medium'', ''Large'', ''ExtraLarge'']
       (tb_spacing b)"

definition wf_image :: "(string \<Rightarrow> bool) \<Rightarrow> image \<Rightarrow> bool" where
  "wf_image is_url i \<longleftrightarrow>
     is_url (im_url i) \<and>
     one_of [''Auto'', ''Stretch'', ''Small'', ''Medium'', ''Large''] (im_size i) \<and>
     one_of [''Default'', ''Person''] (im_style i) \<and>
     one_of [''Left'', ''Center'', ''Right''] (im_horizontalAlignment i)"

definition wf_action :: "action \<Rightarrow> bool" where
  "wf_action a \<longleftrightarrow>
     a_type a \<in> set [''Action.Submit'', ''Action.OpenUrl'', ''Action.ShowCard''] \<and>
     one_of [''default'', ''positive'', ''destructive''] (a_style a)"

fun wf_element :: "(string \<Rightarrow> bool) \<Rightarrow> card_element \<Rightarrow> bool"
  and wf_column :: "(string \<Rightarrow> bool) \<Rightarrow> column \<Rightarrow> bool" where
  "wf_element is_url (TextBlock b) = wf_text_block b"
| "wf_element is_url (ImageNode i) = wf_image is_url i"
| "wf_element is_url (FactSet facts spacing separator) =
     (length facts \<le> 10 \<and>
      one_of [''None'', ''Small'', ''Default'', ''Medium'', ''Large'', ''ExtraLarge''] spacing)"
| "wf_element is_url (ColumnSet columns spacing separator) =
     (list_all (wf_column is_url) columns \<and>
      one_of [''None'', ''Small'', ''Default'', ''Medium'', ''Large'', ''ExtraLarge''] spacing)"
| "wf_element is_url (Container items style spacing separator) =
     (list_all (wf_element is_url) items \<and>
      one_of [''Default'', ''Emphasis'', ''Good'', ''Attention'', ''Warning''] style \<and>
      one_of [''None'', ''Small'', ''Default'', ''Medium'', ''Large'', ''ExtraLarge''] spacing)"
| "wf_element is_url (ActionSet actions) = list_all wf_action actions"
| "wf_column is_url (Column width items alignment spacing) =
     ((case items of None \<Rightarrow> True | Some xs \<Rightarrow> list_all (wf_element is_url) xs) \<and>
      one_of [''Top'', ''Center'', ''Bottom''] alignment \<and>
      one_of [''None'', ''Small'', ''Default'', ''Medium'', ''Large'', ''ExtraLarge''] spacing)"

definition wf_card :: "(string \<Rightarrow> bool) \<Rightarrow> adaptive_card \<Rightarrow> bool" where
  "wf_card is_url c \<longleftrightarrow>
     length (c_body c) \<le> 50 \<and>
     list_all (wf_element is_url) (c_body c) \<and>
     (case c_actions c of None \<Rightarrow> True | Some xs \<Rightarrow> list_all wf_action xs)"

text \<open>The card with the schema's default filled in.\<close>

definition with_defaults :: "adaptive_card \<Rightarrow> adaptive_card" where
  "with_defaults c =
     c\<lparr>c_version := Some (case c_version c of None \<Rightarrow> ''1.4'' | Some v \<Rightarrow> v)\<rparr>"

section \<open>Rejections\<close>

text \<open>
  An issue reports code \<open>c\<close> at path \<open>q\<close> when it is that issue, or a failed union that
  holds it among the issues of its options.
\<close>

fun reports :: "issue_code \<Rightarrow> path \<Rightarrow> issue \<Rightarrow> bool" where
  "reports c q (Issue c' p) = (c' = c \<and> p = q)"
| "reports c q (Invalid_union p alts) = list_ex (list_ex (reports c q)) alts"

definition rejected_at :: "issue_code \<Rightarrow> path \<Rightarrow> parsed \<Rightarrow> bool" where
  "rejected_at c q r = (status_of r \<noteq> Valid \<and> list_ex (reports c q) (issues_of r))"

text \<open>
  The card elements of an input and their paths: the elements of \<open>body\<close>, the \<open>items\<close>
  of a \<open>Container\<close> element, and the \<open>items\<close> of the columns of a \<open>ColumnSet\<close> element.
\<close>

inductive element_at :: "js \<Rightarrow> path \<Rightarrow> js \<Rightarrow> bool" for doc :: js where
  in_body:
    "get_prop doc ''body'' = JArr xs \<Longrightarrow> i < length xs \<Longrightarrow>
     element_at doc [Key ''body'', Idx i] (xs ! i)"
| in_container:
    "element_at doc p n \<Longrightarrow> get_prop n ''type'' = JStr ''Container'' \<Longrightarrow>
     get_prop n ''items'' = JArr xs \<Longrightarrow> i < length xs \<Longrightarrow>
     element_at doc (p @ [Key ''items'', Idx i]) (xs ! i)"
| in_column:
    "element_at doc p n \<Longrightarrow> get_prop n ''type'' = JStr ''ColumnSet'' \<Longrightarrow>
     get_prop n ''columns'' = JArr cs \<Longrightarrow> j < length cs \<Longrightarrow>
     get_prop (cs ! j) ''type'' = JStr ''Column'' \<Longrightarrow>
     get_prop (cs ! j) ''items'' = JArr xs \<Longrightarrow> i < length xs \<Longrightarrow>
     element_at doc (p @ [Key ''columns'', Idx j, Key ''items'', Idx i]) (xs ! i)"

section \<open>Concrete runs\<close>

text \<open>Inputs on which the theorems below are exercised.\<close>

definition respond_with :: "http_response \<Rightarrow> fetch" where
  "respond_with r req = Inr r"

definition bot_env :: env where
  "bot_env = map_of [(''TEAMS_BOT_APP_ID'', ''app-1''), (''TEAMS_BOT_APP_PASSWORD'', ''s3cret'')]"

definition tenant_env :: env where
  "tenant_env = map_of [(''TEAMS_BOT_APP_ID'', ''app-1''), (''TEAMS_BOT_APP_PASSWORD'', ''s3cret''),
     (''TEAMS_BOT_TENANT_ID'', ''contoso-tenant'')]"

definition no_env :: env where
  "no_env = map_of []"

definition empty_state :: state where
  "empty_state = \<lparr> tokenCache = None, requests = [], log = [] \<rparr>"

definition cached_state :: "int \<Rightarrow> state" where
  "cached_state t =
     \<lparr> tokenCache = Some \<lparr> token = JStr ''old'', expiresAt = t \<rparr>, requests = [], log = [] \<rparr>"

definition token_response :: http_response where
  "token_response = \<lparr> status = 200, text_of = ''(json)'',
     json_of = Some (JObj [(''access_token'', JStr ''new''), (''expires_in'', JNum 3600)]) \<rparr>"

definition error_response :: "string \<Rightarrow> http_response" where
  "error_response b = \<lparr> status = 401, text_of = b, json_of = None \<rparr>"

definition no_expiry_response :: http_response where
  "no_expiry_response = \<lparr> status = 200, text_of = ''(json)'',
     json_of = Some (JObj [(''access_token'', JStr ''new'')]) \<rparr>"

text \<open>
  In the runs, the URL test accepts the strings that start with \<open>https://\<close>, and
  \<open>encodeURIComponent\<close> leaves its argument as it is.
\<close>

definition sample_is_url :: "string \<Rightarrow> bool" where
  "sample_is_url s = (take 8 s = ''https://'' \<and> 8 < length s)"

definition empty_card :: js where
  "empty_card = JObj [(''type'', JStr ''AdaptiveCard''), (''body'', JArr [])]"


definition plain_text :: "string \<Rightarrow> text_block" where
  "plain_text t =
     \<lparr> tb_text = t, tb_weight = None, tb_size = None, tb_color = None, tb_wrap = None,
       tb_isSubtle = None, tb_maxLines = None, tb_horizontalAlignment = None, tb_spacing = None,
       tb_separator = None \<rparr>"

definition card_of_body :: "card_element list \<Rightarrow> adaptive_card" where
  "card_of_body es = \<lparr> c_version = None, c_body = es, c_actions = None, c_schema = None \<rparr>"


definition text_js :: "string \<Rightarrow> js" where
  "text_js t = JObj [(''type'', JStr ''TextBlock''), (''text'', JStr t)]"

definition fact_js :: js where
  "fact_js = JObj [(''title'', JStr ''k''), (''value'', JStr ''v'')]"

definition big_body_doc :: js where
  "big_body_doc = JObj [(''type'', JStr ''AdaptiveCard''), (''body'', JArr (replicate 51 (text_js ''x'')))]"

definition big_facts :: js where
  "big_facts = JObj [(''type'', JStr ''FactSet''), (''facts'', JArr (replicate 11 fact_js))]"

definition big_facts_doc :: js where
  "big_facts_doc = JObj
     [(''type'', JStr ''AdaptiveCard''),
      (''body'', JArr [JObj [(''type'', JStr ''Container''), (''items'', JArr [big_facts])]])]"

definition bad_image :: js where
  "bad_image = JObj [(''type'', JStr ''Image''), (''url'', JStr ''not a url'')]"

definition bad_image_doc :: js where
  "bad_image_doc = JObj
     [(''type'', JStr ''AdaptiveCard''),
      (''body'', JArr
         [text_js ''x'',
          JObj [(''type'', JStr ''ColumnSet''),
                (''columns'', JArr [JObj [(''type'', JStr ''Column''),
                                          (''items'', JArr [bad_image])]])]])]"

lemmas run_defs = respond_with_def bot_env_def tenant_env_def no_env_def empty_state_def
  cached_state_def token_response_def error_response_def no_expiry_response_def

lemmas token_defs = getBotConnectorToken_def cache_fresh_def is_number_def
  num_of_def ok_def


section \<open>The token cache\<close>







text \<open>
  C3 (as amended). When the client identifier or the client secret is unset or empty,
  no call makes a network request. Without a usable cached token the call fails with the
  missing-credentials error and leaves the state as it was; with a cached token more
  than 5 minutes from expiry the call returns that token.
\<close>

theorem missing_credentials:
  assumes "\<not> truthy_str (env ''TEAMS_BOT_APP_ID'') \<or> \<not> truthy_str (env ''TEAMS_BOT_APP_PASSWORD'')"
  shows "requests (snd (getBotConnectorToken fetch env now s)) = requests s
       \<and> ((tokenCache s = None \<or> (\<exists>c. tokenCache s = Some c \<and> expiresAt c \<le> now + 300000)) \<longrightarrow>
            getBotConnectorToken fetch env now s =
              (Inl (Error ''TEAMS_BOT_APP_ID and TEAMS_BOT_APP_PASSWORD must be set''), s))
       \<and> (\<forall>c. tokenCache s = Some c \<and> expiresAt c > now + 300000 \<longrightarrow>
            getBotConnectorToken fetch env now s = (Inr (token c), s))"
  using assms
  by (auto simp: getBotConnectorToken_def cache_fresh_def Let_def split: option.splits)

theorem missing_credentials_witness:
  "getBotConnectorToken (respond_with token_response) no_env 0 (cached_state 120000)
     = (Inl (Error ''TEAMS_BOT_APP_ID and TEAMS_BOT_APP_PASSWORD must be set''),
        cached_state 120000)"
proof -
  have "\<not> truthy_str (no_env ''TEAMS_BOT_APP_ID'') \<or> \<not> truthy_str (no_env ''TEAMS_BOT_APP_PASSWORD'')"
    by (simp add: no_env_def)
  from missing_credentials [OF this, of "respond_with token_response" 0 "cached_state 120000"]
  show ?thesis
    by (simp add: cached_state_def)
qed

text \<open>
  C3 as stated fails: with a cached token 10 minutes from expiry and no credentials in
  the environment, the call returns the cached token.
\<close>

theorem missing_credentials_cached_counterexample:
  "no_env ''TEAMS_BOT_APP_ID'' = None
   \<and> getBotConnectorToken (respond_with token_response) no_env 0 (cached_state 600000)
       = (Inr (JStr ''old''), cached_state 600000)"
  by (simp add: run_defs token_defs)

text \<open>
  C4. Whatever the environment holds, \<open>TEAMS_BOT_TENANT_ID\<close> included, a call makes
  either no request or one request, to the \<open>botframework.com\<close> endpoint.
\<close>

theorem token_endpoint_fixed:
  "requests (snd (getBotConnectorToken fetch env now s)) = requests s
   \<or> (\<exists>r. requests (snd (getBotConnectorToken fetch env now s)) = requests s @ [r]
          \<and> url r = ''https://login.microsoftonline.com/botframework.com/oauth2/v2.0/token'')"
  by (auto simp: getBotConnectorToken_def token_request_def tokenUrl_def Let_def
           split: sum.splits option.splits)

theorem token_endpoint_fixed_witness:
  "tenant_env ''TEAMS_BOT_TENANT_ID'' = Some ''contoso-tenant''
   \<and> map url (requests (snd (getBotConnectorToken (respond_with token_response) tenant_env 0
                               empty_state)))
     = [''https://login.microsoftonline.com/botframework.com/oauth2/v2.0/token'']"
  using token_endpoint_fixed [of "respond_with token_response" tenant_env 0 empty_state]
  by (simp add: run_defs token_defs token_request_def tokenUrl_def)

section \<open>Thread replies\<close>




section \<open>Properties of the schema library\<close>

text \<open>From here on a property read is unfolded only where a proof asks for it.\<close>

declare get_prop.simps [simp del] has_key.simps [simp del]

lemma status_merge_object:
  "status_of (merge_object fs) =
     (if list_ex (\<lambda>f. status_of (snd (snd f)) = Aborted) fs then Aborted
      else if list_ex (\<lambda>f. status_of (snd (snd f)) = Dirty) fs then Dirty else Valid)"
  by (simp add: merge_object_def Let_def list_ex_iff)

lemma issues_merge_object:
  "issues_of (merge_object fs) = concat (map (\<lambda>f. issues_of (snd (snd f))) fs)"
  by (simp add: merge_object_def Let_def comp_def)

lemma value_merge_object:
  "status_of (merge_object fs) \<noteq> Aborted \<Longrightarrow> value_of (merge_object fs) = JObj (concat (map kept fs))"
  by (simp add: merge_object_def Let_def split: if_splits)

lemma map_of_kept:
  "map_of (kept (k, present, r)) k' =
     (if k' = k \<and> (value_of r \<noteq> JUndefined \<or> present) then Some (value_of r) else None)"
  by (simp add: kept_def)

lemma map_of_kept_other:
  "k \<notin> fst ` set fs \<Longrightarrow> map_of (concat (map kept fs)) k = None"
  by (induction fs) (auto simp: map_of_kept map_add_def split: option.splits)

lemma get_prop_kept:
  "distinct (map fst fs) \<Longrightarrow> (k, present, r) \<in> set fs \<Longrightarrow>
   get_prop (JObj (concat (map kept fs))) k = value_of r"
proof (induction fs)
  case Nil
  then show ?case by simp
next
  case (Cons f fs)
  show ?case
  proof (cases "f = (k, present, r)")
    case True
    with Cons.prems have "k \<notin> fst ` set fs" by auto
    then have "map_of (concat (map kept fs)) k = None" by (rule map_of_kept_other)
    with True show ?thesis
      by (simp add: map_of_kept map_add_def get_prop.simps)
  next
    case False
    with Cons.prems have in_fs: "(k, present, r) \<in> set fs" and "fst f \<noteq> k" 
      by (auto simp: image_iff)
    then have "map_of (kept f) k = None"
      by (cases f) (simp add: map_of_kept)
    with Cons.IH Cons.prems in_fs show ?thesis
      by (simp add: map_add_def get_prop.simps)
  qed
qed

lemma optional_string_ok:
  "v = JUndefined \<or> (\<exists>s. v = JStr s) \<Longrightarrow> z_optional z_string p v = OK v"
  by (auto simp: z_optional_def z_string_def)

lemma card_value_truthy:
  "status_of (AdaptiveCardSchema U p c) \<noteq> Aborted \<Longrightarrow> truthy (value_of (AdaptiveCardSchema U p c))"
  by (cases c) (simp_all add: AdaptiveCardSchema_def z_object_def merge_object_def INVALID_def Let_def split: if_splits)

text \<open>
  The rich-message request whose three fields parse without aborting: its status and
  issues, in terms of the parsed text and card.
\<close>

lemma rich_eval:
  assumes rt: "rt = z_optional z_string [Key ''text''] (get_prop (JObj kvs) ''text'')"
    and rc: "rc = z_optional (AdaptiveCardSchema U) [Key ''card''] (get_prop (JObj kvs) ''card'')"
    and rth: "rth = z_optional z_string [Key ''thread_id''] (get_prop (JObj kvs) ''thread_id'')"
    and ok: "status_of rt = Valid" "status_of rc = Valid" "status_of rth = Valid"
  shows "status_of (PostRichMessageRequestSchema U [] (JObj kvs)) =
           (if truthy (value_of rt) \<or> truthy (value_of rc) then Valid else Dirty)"
    and "issues_of (PostRichMessageRequestSchema U [] (JObj kvs)) =
           issues_of rt @ issues_of rc @ issues_of rth @
           (if truthy (value_of rt) \<or> truthy (value_of rc) then []
            else [Issue custom [Key ''text'', Key ''card'']])"
proof -
  define fs where "fs = [(''text'', has_key (JObj kvs) ''text'', rt),
                         (''card'', has_key (JObj kvs) ''card'', rc),
                         (''thread_id'', has_key (JObj kvs) ''thread_id'', rth)]"
  have st: "status_of (merge_object fs) = Valid"
    using ok by (simp add: status_merge_object fs_def)
  have iss: "issues_of (merge_object fs) = issues_of rt @ issues_of rc @ issues_of rth"
    by (simp add: issues_merge_object fs_def)
  have val: "value_of (merge_object fs) = JObj (concat (map kept fs))"
    using st by (simp add: value_merge_object)
  have d: "distinct (map fst fs)" by (simp add: fs_def)
  have t: "get_prop (value_of (merge_object fs)) ''text'' = value_of rt"
    unfolding val by (rule get_prop_kept [OF d, of _ "has_key (JObj kvs) ''text''"]) (simp add: fs_def)
  have c: "get_prop (value_of (merge_object fs)) ''card'' = value_of rc"
    unfolding val by (rule get_prop_kept [OF d, of _ "has_key (JObj kvs) ''card''"]) (simp add: fs_def)
  have eq: "PostRichMessageRequestSchema U [] (JObj kvs) =
          (if truthy (value_of rt) \<or> truthy (value_of rc) then merge_object fs
           else Parsed Dirty (value_of (merge_object fs))
                  (issues_of (merge_object fs) @ [Issue custom [Key ''text'', Key ''card'']]))"
    using st t c
    by (simp add: PostRichMessageRequestSchema_def z_refine_def z_object_def zfield_def Let_def
          fs_def rt rc rth)
  show "status_of (PostRichMessageRequestSchema U [] (JObj kvs)) =
           (if truthy (value_of rt) \<or> truthy (value_of rc) then Valid else Dirty)"
    by (simp add: eq st)
  show "issues_of (PostRichMessageRequestSchema U [] (JObj kvs)) =
           issues_of rt @ issues_of rc @ issues_of rth @
           (if truthy (value_of rt) \<or> truthy (value_of rc) then []
            else [Issue custom [Key ''text'', Key ''card'']])"
    by (simp add: eq iss)
qed

section \<open>The rich-message request\<close>

lemma rich_parse:
  assumes "get_prop (JObj kvs) ''thread_id'' = JUndefined \<or> (\<exists>s. get_prop (JObj kvs) ''thread_id'' = JStr s)"
    and "get_prop (JObj kvs) ''text'' = JUndefined \<or> (\<exists>s. get_prop (JObj kvs) ''text'' = JStr s)"
    and "get_prop (JObj kvs) ''card'' = JUndefined \<or>
         status_of (AdaptiveCardSchema U [Key ''card''] (get_prop (JObj kvs) ''card'')) = Valid"
  shows "truthy (get_prop (JObj kvs) ''text'') \<or> get_prop (JObj kvs) ''card'' \<noteq> JUndefined \<Longrightarrow>
           \<exists>data. parse (PostRichMessageRequestSchema U) (JObj kvs) = Inr data"
    and "\<not> truthy (get_prop (JObj kvs) ''text'') \<Longrightarrow> get_prop (JObj kvs) ''card'' = JUndefined \<Longrightarrow>
           parse (PostRichMessageRequestSchema U) (JObj kvs) = Inl [Issue custom [Key ''text'', Key ''card'']]"
proof -
  let ?v = "JObj kvs"
  let ?rt = "z_optional z_string [Key ''text''] (get_prop ?v ''text'')"
  let ?rc = "z_optional (AdaptiveCardSchema U) [Key ''card''] (get_prop ?v ''card'')"
  let ?rth = "z_optional z_string [Key ''thread_id''] (get_prop ?v ''thread_id'')"
  have rt: "?rt = OK (get_prop ?v ''text'')" and rth: "?rth = OK (get_prop ?v ''thread_id'')"
    using assms(1,2) by (simp_all add: optional_string_ok)
  have stc: "status_of ?rc = Valid"
    using assms(3) by (auto simp: z_optional_def OK_def)
  have st: "status_of ?rt = Valid" "status_of ?rth = Valid"
    by (simp_all add: rt rth OK_def)
  note ev = rich_eval [OF refl refl refl st(1) stc st(2)]
  have tc: "truthy (value_of ?rc) \<longleftrightarrow> get_prop ?v ''card'' \<noteq> JUndefined"
    using assms(3) by (auto simp: z_optional_def OK_def card_value_truthy)
  have tt: "value_of ?rt = get_prop ?v ''text''"
    by (simp add: rt OK_def)
  show "\<exists>data. parse (PostRichMessageRequestSchema U) ?v = Inr data"
    if "truthy (get_prop ?v ''text'') \<or> get_prop ?v ''card'' \<noteq> JUndefined"
    using that ev(1) tc tt by (simp add: parse_def Let_def)
  show "parse (PostRichMessageRequestSchema U) ?v = Inl [Issue custom [Key ''text'', Key ''card'']]"
    if "\<not> truthy (get_prop ?v ''text'')" "get_prop ?v ''card'' = JUndefined"
  proof -
    have "issues_of ?rt = []" "issues_of ?rth = []"
      by (simp_all add: rt rth OK_def)
    moreover have "issues_of ?rc = []"
      using that(2) by (simp add: z_optional_def OK_def)
    ultimately show ?thesis
      using that ev tc tt by (simp add: parse_def Let_def)
  qed
qed

text \<open>
  C5 (as amended). For an object whose \<open>thread_id\<close> is absent or a string: when
  \<open>text\<close> and \<open>card\<close> are both absent, parsing fails with one issue, whose path is
  \<open>text, card\<close>; when \<open>text\<close> is a non-empty string and \<open>card\<close> is absent, parsing
  succeeds; when \<open>text\<close> is absent and \<open>card\<close> is a card that \<open>AdaptiveCardSchema\<close>
  accepts, parsing succeeds.
\<close>

theorem require_text_or_card:
  assumes "get_prop (JObj kvs) ''thread_id'' = JUndefined \<or> (\<exists>s. get_prop (JObj kvs) ''thread_id'' = JStr s)"
  shows "(get_prop (JObj kvs) ''text'' = JUndefined \<and> get_prop (JObj kvs) ''card'' = JUndefined \<longrightarrow>
            parse (PostRichMessageRequestSchema is_url) (JObj kvs) =
              Inl [Issue custom [Key ''text'', Key ''card'']])
       \<and> (\<forall>s. get_prop (JObj kvs) ''text'' = JStr s \<and> s \<noteq> [] \<and> get_prop (JObj kvs) ''card'' = JUndefined \<longrightarrow>
            (\<exists>data. parse (PostRichMessageRequestSchema is_url) (JObj kvs) = Inr data))
       \<and> (get_prop (JObj kvs) ''text'' = JUndefined \<and> get_prop (JObj kvs) ''card'' \<noteq> JUndefined \<and>
          status_of (AdaptiveCardSchema is_url [Key ''card''] (get_prop (JObj kvs) ''card'')) = Valid \<longrightarrow>
            (\<exists>data. parse (PostRichMessageRequestSchema is_url) (JObj kvs) = Inr data))"
  using rich_parse(1) [OF assms, of is_url] rich_parse(2) [OF assms, of is_url]
  by auto

lemma empty_card_valid:
  "status_of (AdaptiveCardSchema sample_is_url [Key ''card''] empty_card) = Valid"
  by (simp add: empty_card_def AdaptiveCardSchema_def z_object_def status_merge_object zfield_def
        z_literal_def z_default_def z_string_def z_array_def merge_array_def z_optional_def OK_def
        get_prop.simps)

theorem require_text_or_card_witness:
  "parse (PostRichMessageRequestSchema sample_is_url) (JObj []) =
     Inl [Issue custom [Key ''text'', Key ''card'']]
   \<and> (\<exists>data. parse (PostRichMessageRequestSchema sample_is_url) (JObj [(''text'', JStr ''ok'')]) = Inr data)
   \<and> (\<exists>data. parse (PostRichMessageRequestSchema sample_is_url) (JObj [(''card'', empty_card)]) = Inr data)"
  using require_text_or_card [of "[]" sample_is_url]
        require_text_or_card [of "[(''text'', JStr ''ok'')]" sample_is_url]
        require_text_or_card [of "[(''card'', empty_card)]" sample_is_url]
        empty_card_valid
  by (simp add: empty_card_def get_prop.simps)

text \<open>
  C9. For an object whose \<open>text\<close> is the empty string (and whose \<open>thread_id\<close> is absent
  or a string): the \<open>text\<close> key is present, yet without a card parsing fails with the
  require-one-of issue at \<open>text, card\<close>; with a card that \<open>AdaptiveCardSchema\<close> accepts,
  parsing succeeds.
\<close>

theorem empty_text_counts_as_absent:
  assumes "get_prop (JObj kvs) ''thread_id'' = JUndefined \<or> (\<exists>s. get_prop (JObj kvs) ''thread_id'' = JStr s)"
    and "get_prop (JObj kvs) ''text'' = JStr []"
  shows "has_key (JObj kvs) ''text''
       \<and> (get_prop (JObj kvs) ''card'' = JUndefined \<longrightarrow>
            parse (PostRichMessageRequestSchema is_url) (JObj kvs) =
              Inl [Issue custom [Key ''text'', Key ''card'']])
       \<and> (get_prop (JObj kvs) ''card'' \<noteq> JUndefined \<and>
          status_of (AdaptiveCardSchema is_url [Key ''card''] (get_prop (JObj kvs) ''card'')) = Valid \<longrightarrow>
            (\<exists>data. parse (PostRichMessageRequestSchema is_url) (JObj kvs) = Inr data))"
proof -
  have "has_key (JObj kvs) ''text''"
    using assms(2) by (auto simp: get_prop.simps has_key.simps split: option.splits)
  moreover have "\<not> truthy (get_prop (JObj kvs) ''text'')"
    using assms(2) by simp
  ultimately show ?thesis
    using rich_parse(1) [OF assms(1), of is_url] rich_parse(2) [OF assms(1), of is_url] assms(2)
    by auto
qed

theorem empty_text_counts_as_absent_witness:
  "parse (PostRichMessageRequestSchema sample_is_url) (JObj [(''text'', JStr '''')]) =
     Inl [Issue custom [Key ''text'', Key ''card'']]
   \<and> (\<exists>data. parse (PostRichMessageRequestSchema sample_is_url)
                (JObj [(''text'', JStr ''''), (''card'', empty_card)]) = Inr data)"
  using empty_text_counts_as_absent [of "[(''text'', JStr '''')]" sample_is_url]
        empty_text_counts_as_absent [of "[(''text'', JStr ''''), (''card'', empty_card)]" sample_is_url]
        empty_card_valid
  by (simp add: empty_card_def get_prop.simps)

text \<open>
  C5 as stated fails: a request with a text string alone is rejected when the string is
  empty, and a request without text and card whose \<open>thread_id\<close> is a number is rejected
  at \<open>thread_id\<close> only.
\<close>

theorem text_alone_rejected_counterexample:
  "parse (PostRichMessageRequestSchema sample_is_url) (JObj [(''text'', JStr '''')]) =
     Inl [Issue custom [Key ''text'', Key ''card'']]
   \<and> parse (PostRichMessageRequestSchema sample_is_url) (JObj [(''thread_id'', JNum 5)]) =
     Inl [Issue invalid_type [Key ''thread_id'']]"
proof -
  have "parse (PostRichMessageRequestSchema sample_is_url) (JObj [(''text'', JStr '''')]) =
          Inl [Issue custom [Key ''text'', Key ''card'']]"
    by (rule rich_parse(2)) (simp_all add: get_prop.simps)
  moreover
  have "parse (PostRichMessageRequestSchema sample_is_url) (JObj [(''thread_id'', JNum 5)]) =
          Inl [Issue invalid_type [Key ''thread_id'']]"
    by (simp add: parse_def PostRichMessageRequestSchema_def z_refine_def z_object_def
          merge_object_def zfield_def z_optional_def z_string_def OK_def INVALID_def
          get_prop.simps has_key.simps)
  ultimately show ?thesis by simp
qed

section \<open>Cards that parse to themselves\<close>

lemma status_merge_array:
  "status_of (merge_array pre rs) =
     (if list_ex (\<lambda>r. status_of r = Aborted) rs then Aborted
      else if pre \<noteq> [] \<or> list_ex (\<lambda>r. status_of r = Dirty) rs then Dirty else Valid)"
  by (simp add: merge_array_def Let_def)

lemma issues_merge_array:
  "issues_of (merge_array pre rs) = pre @ concat (map issues_of rs)"
  by (simp add: merge_array_def Let_def)

lemma merge_array_OK:
  "merge_array [] (map OK xs) = OK (JArr xs)"
  by (simp add: merge_array_def OK_def list_ex_iff comp_def)

lemma z_array_OK:
  assumes "\<And>i. i < length xs \<Longrightarrow> elem (p @ [Idx i]) (xs ! i) = OK (xs ! i)"
    and "case m of None \<Rightarrow> True | Some n \<Rightarrow> length xs \<le> n"
  shows "z_array elem m p (JArr xs) = OK (JArr xs)"
proof -
  have "map (\<lambda>(i, x). elem (p @ [Idx i]) x) (enumerate 0 xs) = map OK xs"
    using assms(1) by (auto simp: list_eq_iff_nth_eq nth_enumerate_eq)
  moreover have "(case m of Some n \<Rightarrow> if length xs > n then [Issue too_big p] else [] | None \<Rightarrow> []) = []"
    using assms(2) by (simp split: option.splits)
  ultimately show ?thesis
    by (simp add: z_array_def merge_array_OK)
qed

lemma map_of_defined_only:
  "distinct (map fst kvs) \<Longrightarrow>
   map_of (defined_only kvs) k =
     (case map_of kvs k of None \<Rightarrow> None | Some v \<Rightarrow> if v = JUndefined then None else Some v)"
  unfolding defined_only_def
  by (induction kvs) (auto simp: rev_image_eqI split: option.splits dest: map_of_SomeD)

lemma get_prop_defined_only:
  "distinct (map fst kvs) \<Longrightarrow> get_prop (JObj (defined_only kvs)) k = get_prop (JObj kvs) k"
  by (simp add: get_prop.simps map_of_defined_only split: option.splits)

lemma has_key_defined_only:
  "distinct (map fst kvs) \<Longrightarrow>
   has_key (JObj (defined_only kvs)) k \<longleftrightarrow> get_prop (JObj kvs) k \<noteq> JUndefined"
  by (simp add: get_prop.simps has_key.simps map_of_defined_only split: option.splits)

lemma merge_object_Nil_OK: "merge_object [] = OK (JObj (defined_only []))"
  by (simp add: merge_object_def defined_only_def OK_def)

lemma merge_object_Cons_OK:
  "(b \<Longrightarrow> x \<noteq> JUndefined) \<Longrightarrow> merge_object fs = OK (JObj (defined_only kvs)) \<Longrightarrow>
   merge_object ((k, b, OK x) # fs) = OK (JObj (defined_only ((k, x) # kvs)))"
  by (auto simp: merge_object_def defined_only_def OK_def kept_def Let_def split: if_splits)

lemma opt_simps [simp]: "opt f None = JUndefined" "opt f (Some a) = f a"
  by (simp_all add: opt_def)

lemma z_literal_OK: "z_literal l q (JStr l) = OK (JStr l)"
  by (simp add: z_literal_def)

lemma z_string_OK: "z_string q (JStr s) = OK (JStr s)"
  by (simp add: z_string_def)

lemma opt_enum_OK: "one_of vals x \<Longrightarrow> z_optional (z_enum vals) q (opt JStr x) = OK (opt JStr x)"
  by (cases x) (simp_all add: one_of_def z_optional_def z_enum_def opt_def OK_def)

lemma opt_boolean_OK: "z_optional z_boolean q (opt JBool x) = OK (opt JBool x)"
  by (cases x) (simp_all add: z_optional_def z_boolean_def opt_def OK_def)

lemma opt_number_OK: "z_optional z_number q (opt JNum x) = OK (opt JNum x)"
  by (cases x) (simp_all add: z_optional_def z_number_def opt_def OK_def)

lemma opt_string_OK: "z_optional z_string q (opt JStr x) = OK (opt JStr x)"
  by (cases x) (simp_all add: z_optional_def z_string_def opt_def OK_def)

lemmas field_OK = z_literal_OK z_string_OK opt_enum_OK opt_boolean_OK opt_number_OK opt_string_OK

lemmas object_OK_simps = z_object_def zfield_def get_prop_defined_only has_key_defined_only

lemma TextBlockSchema_OK:
  "wf_text_block b \<Longrightarrow> TextBlockSchema p (js_of_text_block b) = OK (js_of_text_block b)"
  unfolding TextBlockSchema_def js_of_text_block_def wf_text_block_def
  apply (simp add: object_OK_simps)
  apply (simp add: get_prop.simps field_OK)
  apply (intro merge_object_Cons_OK merge_object_Nil_OK)
  apply simp_all
  done

lemma z_array_map_OK:
  assumes "\<And>x q. x \<in> set xs \<Longrightarrow> elem q (f x) = OK (f x)"
    and "case m of None \<Rightarrow> True | Some n \<Rightarrow> length xs \<le> n"
  shows "z_array elem m p (JArr (map f xs)) = OK (JArr (map f xs))"
  using assms by (intro z_array_OK) (simp_all split: option.splits)

lemma opt_unknown_OK: "z_optional z_unknown q v = OK v"
  by (simp add: z_optional_def z_unknown_def)

lemma z_enum_OK: "s \<in> set vals \<Longrightarrow> z_enum vals q (JStr s) = OK (JStr s)"
  by (simp add: z_enum_def)

lemma ImageSchema_OK:
  "wf_image U i \<Longrightarrow> ImageSchema U p (js_of_image i) = OK (js_of_image i)"
  unfolding ImageSchema_def js_of_image_def wf_image_def
  apply (simp add: object_OK_simps)
  apply (simp add: get_prop.simps field_OK z_string_url_def)
  apply (intro merge_object_Cons_OK merge_object_Nil_OK)
  apply simp_all
  done

lemma FactSchema_OK: "FactSchema p (js_of_fact f) = OK (js_of_fact f)"
  by (simp add: FactSchema_def js_of_fact_def z_object_def zfield_def get_prop.simps has_key.simps
        z_string_OK merge_object_def kept_def OK_def)

lemma ActionSchema_OK:
  "wf_action a \<Longrightarrow> ActionSchema p (js_of_action a) = OK (js_of_action a)"
  unfolding ActionSchema_def js_of_action_def wf_action_def
  apply (simp add: object_OK_simps)
  apply (simp add: get_prop.simps field_OK opt_unknown_OK z_enum_OK)
  apply (intro merge_object_Cons_OK merge_object_Nil_OK)
  apply simp_all
  done

lemma actions_OK:
  "list_all wf_action xs \<Longrightarrow>
   z_array ActionSchema None q (JArr (map js_of_action xs)) = OK (JArr (map js_of_action xs))"
  by (rule z_array_map_OK) (simp_all add: ActionSchema_OK list_all_iff)

lemma FactSetSchema_OK:
  "length facts \<le> 10 \<Longrightarrow>
   one_of [''None'', ''Small'', ''Default'', ''Medium'', ''Large'', ''ExtraLarge''] spacing \<Longrightarrow>
   FactSetSchema p (js_of_element (FactSet facts spacing separator)) =
     OK (js_of_element (FactSet facts spacing separator))"
  unfolding FactSetSchema_def js_of_element.simps
  apply (simp add: object_OK_simps)
  apply (simp add: get_prop.simps field_OK z_array_map_OK FactSchema_OK)
  apply (intro merge_object_Cons_OK merge_object_Nil_OK)
  apply simp_all
  done

lemma ActionSetSchema_OK:
  "list_all wf_action actions \<Longrightarrow>
   ActionSetSchema p (js_of_element (ActionSet actions)) = OK (js_of_element (ActionSet actions))"
  by (simp add: ActionSetSchema_def z_object_def zfield_def get_prop.simps has_key.simps
        z_literal_OK actions_OK merge_object_def kept_def OK_def)

text \<open>A schema with a \<open>type\<close> literal aborts on a value of another type.\<close>

lemma TextBlock_mismatch:
  "get_prop v ''type'' \<noteq> JStr ''TextBlock'' \<Longrightarrow> status_of (TextBlockSchema p v) = Aborted"
  by (cases v)
     (simp_all add: TextBlockSchema_def z_object_def status_merge_object zfield_def z_literal_def
        INVALID_def)

lemma Image_mismatch:
  "get_prop v ''type'' \<noteq> JStr ''Image'' \<Longrightarrow> status_of (ImageSchema U p v) = Aborted"
  by (cases v)
     (simp_all add: ImageSchema_def z_object_def status_merge_object zfield_def z_literal_def
        INVALID_def)

lemma FactSet_mismatch:
  "get_prop v ''type'' \<noteq> JStr ''FactSet'' \<Longrightarrow> status_of (FactSetSchema p v) = Aborted"
  by (cases v)
     (simp_all add: FactSetSchema_def z_object_def status_merge_object zfield_def z_literal_def
        INVALID_def)

lemma ColumnSet_mismatch:
  "get_prop v ''type'' \<noteq> JStr ''ColumnSet'' \<Longrightarrow> status_of (ColumnSetSchema U p v) = Aborted"
  by (cases v)
     (simp_all add: ColumnSetSchema.simps z_object_def status_merge_object zfield_def z_literal_def
        INVALID_def)

lemma Container_mismatch:
  "get_prop v ''type'' \<noteq> JStr ''Container'' \<Longrightarrow> status_of (ContainerSchema U p v) = Aborted"
  by (cases v)
     (simp_all add: ContainerSchema.simps z_object_def status_merge_object zfield_def z_literal_def
        INVALID_def)

lemma ActionSet_mismatch:
  "get_prop v ''type'' \<noteq> JStr ''ActionSet'' \<Longrightarrow> status_of (ActionSetSchema p v) = Aborted"
  by (cases v)
     (simp_all add: ActionSetSchema_def z_object_def status_merge_object zfield_def z_literal_def
        INVALID_def)

lemmas mismatch = TextBlock_mismatch Image_mismatch FactSet_mismatch ColumnSet_mismatch
  Container_mismatch ActionSet_mismatch

lemma type_of_element:
  "get_prop (js_of_element e) ''type'' =
     JStr (case e of TextBlock b \<Rightarrow> ''TextBlock'' | ImageNode i \<Rightarrow> ''Image''
           | FactSet f s t \<Rightarrow> ''FactSet'' | ColumnSet c s t \<Rightarrow> ''ColumnSet''
           | Container i y s t \<Rightarrow> ''Container'' | ActionSet a \<Rightarrow> ''ActionSet'')"
  by (cases e;
      simp add: js_of_text_block_def js_of_image_def get_prop_defined_only;
      simp add: get_prop.simps)

lemma width_OK:
  "z_optional (\<lambda>q x. z_union q [z_string q x, z_number q x]) p (opt js_of_width w) =
     OK (opt js_of_width w)"
  by (cases w)
     (auto simp: z_optional_def opt_def js_of_width_def z_union_def z_string_def z_number_def
        OK_def INVALID_def split: width.splits)

lemma element_OK:
  "wf_element U e \<Longrightarrow> CardElementSchema U p (js_of_element e) = OK (js_of_element e)"
  and column_OK:
  "wf_column U c \<Longrightarrow> ColumnSchema U p (js_of_column c) = OK (js_of_column c)"
proof (induction e and c arbitrary: p and p rule: js_of_element_js_of_column.induct)
  case (1 b)
  then have "TextBlockSchema p (js_of_element (TextBlock b)) = OK (js_of_element (TextBlock b))"
    by (simp add: TextBlockSchema_OK)
  then show ?case
    by (simp add: CardElementSchema.simps z_union_def OK_def)
next
  case (2 i)
  let ?v = "js_of_element (ImageNode i)"
  have "ImageSchema U p ?v = OK ?v"
    using 2 by (simp add: ImageSchema_OK)
  moreover have "status_of (TextBlockSchema p ?v) = Aborted"
    by (rule mismatch) (simp add: type_of_element del: js_of_element.simps)
  ultimately show ?case
    by (simp add: CardElementSchema.simps z_union_def OK_def)
next
  case (3 facts spacing separator)
  let ?v = "js_of_element (FactSet facts spacing separator)"
  have "FactSetSchema p ?v = OK ?v"
    using 3 by (intro FactSetSchema_OK) simp_all
  moreover have "status_of (TextBlockSchema p ?v) = Aborted" "status_of (ImageSchema U p ?v) = Aborted"
    by (rule mismatch, simp add: type_of_element del: js_of_element.simps)+
  ultimately show ?case
    by (simp add: CardElementSchema.simps z_union_def OK_def)
next
  case (4 columns spacing separator)
  let ?v = "js_of_element (ColumnSet columns spacing separator)"
  have cols: "z_array (ColumnSchema U) None q (JArr (map js_of_column columns)) =
          OK (JArr (map js_of_column columns))" for q
    using 4 by (intro z_array_map_OK) (simp_all add: list_all_iff)
  have "ColumnSetSchema U p ?v = OK ?v"
    using "4.prems"
    unfolding ColumnSetSchema.simps js_of_element.simps
    apply (simp add: object_OK_simps)
    apply (simp add: get_prop.simps field_OK cols)
    apply (intro merge_object_Cons_OK merge_object_Nil_OK)
    apply simp_all
    done
  moreover have "status_of (TextBlockSchema p ?v) = Aborted" "status_of (ImageSchema U p ?v) = Aborted"
     "status_of (FactSetSchema p ?v) = Aborted"
    by (rule mismatch, simp add: type_of_element del: js_of_element.simps)+
  ultimately show ?case
    by (simp add: CardElementSchema.simps z_union_def OK_def)
next
  case (5 items style spacing separator)
  let ?v = "js_of_element (Container items style spacing separator)"
  have its: "z_array (CardElementSchema U) None q (JArr (map js_of_element items)) =
          OK (JArr (map js_of_element items))" for q
    using 5 by (intro z_array_map_OK) (simp_all add: list_all_iff)
  have "ContainerSchema U p ?v = OK ?v"
    using "5.prems"
    unfolding ContainerSchema.simps js_of_element.simps
    apply (simp add: object_OK_simps)
    apply (simp add: get_prop.simps field_OK its)
    apply (intro merge_object_Cons_OK merge_object_Nil_OK)
    apply simp_all
    done
  moreover have "status_of (TextBlockSchema p ?v) = Aborted" "status_of (ImageSchema U p ?v) = Aborted"
     "status_of (FactSetSchema p ?v) = Aborted" "status_of (ColumnSetSchema U p ?v) = Aborted"
    by (rule mismatch, simp add: type_of_element del: js_of_element.simps)+
  ultimately show ?case
    by (simp add: CardElementSchema.simps z_union_def OK_def)
next
  case (6 actions)
  let ?v = "js_of_element (ActionSet actions)"
  have "ActionSetSchema p ?v = OK ?v"
    using 6 by (intro ActionSetSchema_OK) simp
  moreover have "status_of (TextBlockSchema p ?v) = Aborted" "status_of (ImageSchema U p ?v) = Aborted"
     "status_of (FactSetSchema p ?v) = Aborted" "status_of (ColumnSetSchema U p ?v) = Aborted"
     "status_of (ContainerSchema U p ?v) = Aborted"
    by (rule mismatch, simp add: type_of_element del: js_of_element.simps)+
  ultimately show ?case
    by (simp add: CardElementSchema.simps z_union_def OK_def)
next
  case (7 width items alignment spacing)
  have its: "z_optional (z_array (CardElementSchema U) None) q
               (opt (\<lambda>xs. JArr (map js_of_element xs)) items) =
             OK (opt (\<lambda>xs. JArr (map js_of_element xs)) items)" for q
  proof (cases items)
    case None
    then show ?thesis by (simp add: opt_def z_optional_def)
  next
    case (Some xs)
    have "z_array (CardElementSchema U) None q (JArr (map js_of_element xs)) =
            OK (JArr (map js_of_element xs))"
      using 7 Some by (intro z_array_map_OK) (simp_all add: list_all_iff)
    with Some show ?thesis by (simp add: opt_def z_optional_def)
  qed
  show ?case
    using "7.prems"
    unfolding ColumnSchema.simps js_of_column.simps
    apply (simp add: object_OK_simps)
    apply (simp add: get_prop.simps field_OK its width_OK)
    apply (intro merge_object_Cons_OK merge_object_Nil_OK)
    apply simp_all
    done
qed

lemma body_union:
  "(\<lambda>q x. z_union q
       [TextBlockSchema q x, ImageSchema U q x, FactSetSchema q x, ColumnSetSchema U q x,
        ContainerSchema U q x, ActionSetSchema q x]) = CardElementSchema U"
  by (intro ext) (simp add: CardElementSchema.simps)

lemma version_OK:
  "z_default z_string (JStr ''1.4'') q (opt JStr v) =
     OK (JStr (case v of None \<Rightarrow> ''1.4'' | Some s \<Rightarrow> s))"
  by (cases v) (simp_all add: z_default_def opt_def z_string_def)

lemma opt_actions_OK:
  "(case xs of None \<Rightarrow> True | Some as \<Rightarrow> list_all wf_action as) \<Longrightarrow>
   z_optional (z_array ActionSchema None) q (opt (\<lambda>xs. JArr (map js_of_action xs)) xs) =
     OK (opt (\<lambda>xs. JArr (map js_of_action xs)) xs)"
  by (cases xs) (simp_all add: opt_def z_optional_def actions_OK)

lemma card_OK:
  assumes "wf_card U c"
  shows "AdaptiveCardSchema U p (js_of_card c) = OK (js_of_card (with_defaults c))"
proof -
  have body: "z_array (CardElementSchema U) (Some 50) q (JArr (map js_of_element (c_body c))) =
          OK (JArr (map js_of_element (c_body c)))" for q
    using assms by (intro z_array_map_OK) (simp_all add: wf_card_def list_all_iff element_OK)
  have acts: "z_optional (z_array ActionSchema None) q
                (opt (\<lambda>xs. JArr (map js_of_action xs)) (c_actions c)) =
              OK (opt (\<lambda>xs. JArr (map js_of_action xs)) (c_actions c))" for q
    using assms by (intro opt_actions_OK) (simp add: wf_card_def)
  show ?thesis
    unfolding AdaptiveCardSchema_def js_of_card_def with_defaults_def body_union
    apply (simp add: object_OK_simps)
    apply (simp add: get_prop.simps field_OK body acts version_OK)
    apply (intro merge_object_Cons_OK merge_object_Nil_OK)
    apply simp_all
    done
qed




section \<open>Cards that are rejected\<close>

lemma get_prop_object: "get_prop v k \<noteq> JUndefined \<Longrightarrow> \<exists>kvs. v = JObj kvs"
  by (cases v) (simp_all add: get_prop.simps)

lemma not_valid_iff: "status_of r \<noteq> Valid \<longleftrightarrow> status_of r = Dirty \<or> status_of r = Aborted"
  by (cases "status_of r") simp_all

lemma rejected_at_object:
  assumes "(k, b, r) \<in> set fs" and "rejected_at c q r"
  shows "rejected_at c q (z_object p (JObj kvs) fs)"
proof -
  from assms(2) have "status_of r = Dirty \<or> status_of r = Aborted"
    by (simp add: rejected_at_def not_valid_iff)
  then have "list_ex (\<lambda>f. status_of (snd (snd f)) = Dirty) fs
           \<or> list_ex (\<lambda>f. status_of (snd (snd f)) = Aborted) fs"
    unfolding list_ex_iff using assms(1) by (metis snd_conv)
  then have "status_of (merge_object fs) \<noteq> Valid"
    by (auto simp: status_merge_object)
  moreover from assms(2) have "list_ex (reports c q) (issues_of r)"
    by (simp add: rejected_at_def)
  then obtain i where "i \<in> set (issues_of r)" "reports c q i"
    by (auto simp: list_ex_iff)
  with assms(1) have "list_ex (reports c q) (issues_of (merge_object fs))"
    unfolding issues_merge_object list_ex_iff by (force simp: image_iff)
  ultimately show ?thesis
    by (simp add: rejected_at_def z_object_def)
qed

lemma rejected_at_array:
  assumes "i < length xs" and "rejected_at c q (elem (p @ [Idx i]) (xs ! i))"
  shows "rejected_at c q (z_array elem m p (JArr xs))"
proof -
  let ?rs = "map (\<lambda>(i, x). elem (p @ [Idx i]) x) (enumerate 0 xs)"
  let ?r = "elem (p @ [Idx i]) (xs ! i)"
  have "(i, xs ! i) \<in> set (enumerate 0 xs)"
    using assms(1) by (simp add: in_set_enumerate_eq)
  then have mem: "?r \<in> set ?rs"
    by (force simp: image_iff)
  from assms(2) have "status_of ?r = Dirty \<or> status_of ?r = Aborted"
    by (simp add: rejected_at_def not_valid_iff)
  with mem have "list_ex (\<lambda>r. status_of r = Dirty) ?rs \<or> list_ex (\<lambda>r. status_of r = Aborted) ?rs"
    unfolding list_ex_iff by blast
  then have st: "status_of (merge_array pre ?rs) \<noteq> Valid" for pre
    by (auto simp: status_merge_array)
  from assms(2) obtain x where "x \<in> set (issues_of ?r)" "reports c q x"
    by (auto simp: rejected_at_def list_ex_iff)
  with mem have "list_ex (reports c q) (issues_of (merge_array pre ?rs))" for pre
    unfolding issues_merge_array list_ex_iff by (force simp: image_iff)
  with st show ?thesis
    by (simp add: rejected_at_def z_array_def)
qed

lemma rejected_at_union:
  assumes mem: "r \<in> set rs" and rej: "rejected_at c q r"
    and others: "\<And>r'. r' \<in> set rs \<Longrightarrow> r' \<noteq> r \<Longrightarrow> status_of r' = Aborted"
  shows "rejected_at c q (z_union p rs)"
proof -
  have nv: "status_of r \<noteq> Valid" and rep: "list_ex (reports c q) (issues_of r)"
    using rej by (simp_all add: rejected_at_def)
  have not_valid: "status_of x \<noteq> Valid" if "x \<in> set rs" for x
    using that nv others [of x] by (cases "x = r") auto
  then have no_valid: "find (\<lambda>r. status_of r = Valid) rs = None"
    by (auto simp: find_None_iff)
  have dirty_is_r: "x = r" if "x \<in> set rs" "status_of x = Dirty" for x
    using that others [of x] by (cases "x = r") auto
  show ?thesis
  proof (cases "find (\<lambda>r. status_of r = Dirty) rs")
    case None
    from rep have "issues_of r \<noteq> []"
      by auto
    with mem rep have "list_ex (list_ex (reports c q)) (filter (\<lambda>is. is \<noteq> []) (map issues_of rs))"
      unfolding list_ex_iff by (force simp: image_iff)
    with None no_valid show ?thesis
      by (simp add: z_union_def rejected_at_def)
  next
    case (Some x)
    then have "x \<in> set rs" "status_of x = Dirty"
      by (auto simp: find_Some_iff)
    then have "x = r" by (rule dirty_is_r)
    with Some no_valid rej show ?thesis
      by (simp add: z_union_def)
  qed
qed

text \<open>The union rejects what the option of the element's own type rejects.\<close>

lemma rejected_by_option:
  assumes rej: "rejected_at c q r"
    and r: "r \<in> set rs"
    and rs: "rs = [TextBlockSchema p n, ImageSchema U p n, FactSetSchema p n, ColumnSetSchema U p n,
                   ContainerSchema U p n, ActionSetSchema p n]"
    and others: "\<And>r'. r' \<in> set rs \<Longrightarrow> r' \<noteq> r \<Longrightarrow> status_of r' = Aborted"
  shows "rejected_at c q (CardElementSchema U p n)"
  unfolding CardElementSchema.simps rs [symmetric]
  using r rej others by (rule rejected_at_union)

lemma FactSet_option:
  assumes "get_prop n ''type'' = JStr ''FactSet''" and "rejected_at c q (FactSetSchema p n)"
  shows "rejected_at c q (CardElementSchema U p n)"
  by (rule rejected_by_option [OF assms(2) _ refl])
     (use assms(1) in \<open>auto simp: mismatch\<close>)

lemma Image_option:
  assumes "get_prop n ''type'' = JStr ''Image''" and "rejected_at c q (ImageSchema U p n)"
  shows "rejected_at c q (CardElementSchema U p n)"
  by (rule rejected_by_option [OF assms(2) _ refl])
     (use assms(1) in \<open>auto simp: mismatch\<close>)

lemma Container_option:
  assumes "get_prop n ''type'' = JStr ''Container''" and "rejected_at c q (ContainerSchema U p n)"
  shows "rejected_at c q (CardElementSchema U p n)"
  by (rule rejected_by_option [OF assms(2) _ refl])
     (use assms(1) in \<open>auto simp: mismatch\<close>)

lemma ColumnSet_option:
  assumes "get_prop n ''type'' = JStr ''ColumnSet''" and "rejected_at c q (ColumnSetSchema U p n)"
  shows "rejected_at c q (CardElementSchema U p n)"
  by (rule rejected_by_option [OF assms(2) _ refl])
     (use assms(1) in \<open>auto simp: mismatch\<close>)

text \<open>A rejection of a child element is a rejection of the element that holds it.\<close>

lemma Container_items:
  assumes ty: "get_prop n ''type'' = JStr ''Container''"
    and items: "get_prop n ''items'' = JArr xs" and i: "i < length xs"
    and rej: "rejected_at c q (CardElementSchema U (p @ [Key ''items'', Idx i]) (xs ! i))"
  shows "rejected_at c q (CardElementSchema U p n)"
proof -
  from items obtain kvs where n: "n = JObj kvs"
    using get_prop_object [of n "''items''"] by auto
  have "rejected_at c q (z_array (CardElementSchema U) None (p @ [Key ''items'']) (JArr xs))"
    using i rej by (intro rejected_at_array [of i]) simp_all
  then have "rejected_at c q (ContainerSchema U p n)"
    unfolding ContainerSchema.simps n
    by (intro rejected_at_object [of "''items''" "has_key (JObj kvs) ''items''"])
       (simp_all add: zfield_def items [unfolded n])
  with ty show ?thesis by (rule Container_option)
qed

lemma ColumnSet_items:
  assumes ty: "get_prop n ''type'' = JStr ''ColumnSet''"
    and cols: "get_prop n ''columns'' = JArr cs" and j: "j < length cs"
    and items: "get_prop (cs ! j) ''items'' = JArr xs" and i: "i < length xs"
    and rej: "rejected_at c q
                (CardElementSchema U (p @ [Key ''columns'', Idx j, Key ''items'', Idx i]) (xs ! i))"
  shows "rejected_at c q (CardElementSchema U p n)"
proof -
  from cols obtain kvs where n: "n = JObj kvs"
    using get_prop_object [of n "''columns''"] by auto
  from items obtain kvs' where col: "cs ! j = JObj kvs'"
    using get_prop_object [of "cs ! j" "''items''"] by auto
  have "rejected_at c q
          (z_array (CardElementSchema U) None (p @ [Key ''columns'', Idx j, Key ''items'']) (JArr xs))"
    using i rej by (intro rejected_at_array [of i]) simp_all
  then have "rejected_at c q (ColumnSchema U (p @ [Key ''columns'', Idx j]) (cs ! j))"
    unfolding ColumnSchema.simps col
    by (intro rejected_at_object [of "''items''" "has_key (JObj kvs') ''items''"])
       (simp_all add: zfield_def z_optional_def items [unfolded col])
  then have "rejected_at c q (z_array (ColumnSchema U) None (p @ [Key ''columns'']) (JArr cs))"
    using j by (intro rejected_at_array [of j]) simp_all
  then have "rejected_at c q (ColumnSetSchema U p n)"
    unfolding ColumnSetSchema.simps n
    by (intro rejected_at_object [of "''columns''" "has_key (JObj kvs) ''columns''"])
       (simp_all add: zfield_def cols [unfolded n])
  with ty show ?thesis by (rule ColumnSet_option)
qed

lemma body_element:
  assumes body: "get_prop doc ''body'' = JArr xs" and i: "i < length xs"
    and rej: "rejected_at c q (CardElementSchema U [Key ''body'', Idx i] (xs ! i))"
  shows "rejected_at c q (AdaptiveCardSchema U [] doc)"
proof -
  from body obtain kvs where doc: "doc = JObj kvs"
    using get_prop_object [of doc "''body''"] by auto
  have "rejected_at c q (z_array (CardElementSchema U) (Some 50) [Key ''body''] (JArr xs))"
    using i rej by (intro rejected_at_array [of i]) simp_all
  then show ?thesis
    unfolding AdaptiveCardSchema_def doc body_union
    by (intro rejected_at_object [of "''body''" "has_key (JObj kvs) ''body''"])
       (simp_all add: zfield_def body [unfolded doc])
qed

lemma element_rejected:
  "element_at doc p n \<Longrightarrow> rejected_at c q (CardElementSchema U p n) \<Longrightarrow>
   rejected_at c q (AdaptiveCardSchema U [] doc)"
proof (induction rule: element_at.induct)
  case (in_body xs i)
  then show ?case by (rule body_element)
next
  case (in_container p n xs i)
  from in_container.hyps(2-4) in_container.prems
  have "rejected_at c q (CardElementSchema U p n)" by (rule Container_items)
  then show ?case by (rule in_container.IH)
next
  case (in_column p n cs j xs i)
  from in_column.hyps(2-4) in_column.hyps(6,7) in_column.prems
  have "rejected_at c q (CardElementSchema U p n)" by (rule ColumnSet_items)
  then show ?case by (rule in_column.IH)
qed

lemma rejected_parse:
  "rejected_at c q (sch [] v) \<Longrightarrow> \<exists>iss. parse sch v = Inl iss \<and> list_ex (reports c q) iss"
  by (simp add: rejected_at_def parse_def)

lemma array_too_big:
  "length xs > m \<Longrightarrow> rejected_at too_big p (z_array elem (Some m) p (JArr xs))"
  by (auto simp: rejected_at_def z_array_def status_merge_array issues_merge_array)

lemma FactSet_too_big:
  assumes ty: "get_prop n ''type'' = JStr ''FactSet''"
    and facts: "get_prop n ''facts'' = JArr fs" and big: "length fs > 10"
  shows "rejected_at too_big (p @ [Key ''facts'']) (CardElementSchema U p n)"
proof -
  from facts obtain kvs where n: "n = JObj kvs"
    using get_prop_object [of n "''facts''"] by auto
  have "rejected_at too_big (p @ [Key ''facts''])
          (z_array FactSchema (Some 10) (p @ [Key ''facts'']) (JArr fs))"
    using big by (rule array_too_big)
  then have "rejected_at too_big (p @ [Key ''facts'']) (FactSetSchema p n)"
    unfolding FactSetSchema_def n
    by (intro rejected_at_object [of "''facts''" "has_key (JObj kvs) ''facts''"])
       (simp_all add: zfield_def facts [unfolded n])
  with ty show ?thesis by (rule FactSet_option)
qed

lemma Image_bad_url:
  assumes ty: "get_prop n ''type'' = JStr ''Image''"
  shows "get_prop n ''url'' = JStr s \<Longrightarrow> \<not> U s \<Longrightarrow>
           rejected_at invalid_string (p @ [Key ''url'']) (CardElementSchema U p n)"
    and "\<forall>s. get_prop n ''url'' \<noteq> JStr s \<Longrightarrow>
           rejected_at invalid_type (p @ [Key ''url'']) (CardElementSchema U p n)"
proof -
  from ty obtain kvs where n: "n = JObj kvs"
    using get_prop_object [of n "''type''"] by auto
  have field: "(''url'', has_key (JObj kvs) ''url'',
                z_string_url U (p @ [Key ''url'']) (get_prop (JObj kvs) ''url''))
               \<in> set [zfield ''type'' (z_literal ''Image'') p (JObj kvs),
      zfield ''url'' (z_string_url U) p (JObj kvs),
      zfield ''altText'' (z_optional z_string) p (JObj kvs),
      zfield ''size''
        (z_optional (z_enum [''Auto'', ''Stretch'', ''Small'', ''Medium'', ''Large''])) p (JObj kvs),
      zfield ''style'' (z_optional (z_enum [''Default'', ''Person''])) p (JObj kvs),
      zfield ''horizontalAlignment'' (z_optional (z_enum [''Left'', ''Center'', ''Right''])) p (JObj kvs),
      zfield ''width'' (z_optional z_string) p (JObj kvs),
      zfield ''height'' (z_optional z_string) p (JObj kvs)]"
    by (simp add: zfield_def)
  show "rejected_at invalid_string (p @ [Key ''url'']) (CardElementSchema U p n)"
    if "get_prop n ''url'' = JStr s" "\<not> U s"
  proof -
    have "rejected_at invalid_string (p @ [Key ''url''])
            (z_string_url U (p @ [Key ''url'']) (get_prop (JObj kvs) ''url''))"
      using that by (simp add: n rejected_at_def z_string_url_def)
    with field have "rejected_at invalid_string (p @ [Key ''url'']) (ImageSchema U p n)"
      unfolding ImageSchema_def n by (rule rejected_at_object)
    with ty show ?thesis by (rule Image_option)
  qed
  show "rejected_at invalid_type (p @ [Key ''url'']) (CardElementSchema U p n)"
    if "\<forall>s. get_prop n ''url'' \<noteq> JStr s"
  proof -
    have "rejected_at invalid_type (p @ [Key ''url''])
            (z_string_url U (p @ [Key ''url'']) (get_prop (JObj kvs) ''url''))"
      using that
      by (cases "get_prop (JObj kvs) ''url''")
         (simp_all add: n rejected_at_def z_string_url_def INVALID_def)
    with field have "rejected_at invalid_type (p @ [Key ''url'']) (ImageSchema U p n)"
      unfolding ImageSchema_def n by (rule rejected_at_object)
    with ty show ?thesis by (rule Image_option)
  qed
qed

lemma body_too_big:
  assumes body: "get_prop doc ''body'' = JArr xs" and big: "length xs > 50"
  shows "rejected_at too_big [Key ''body''] (AdaptiveCardSchema U [] doc)"
proof -
  from body obtain kvs where doc: "doc = JObj kvs"
    using get_prop_object [of doc "''body''"] by auto
  have "rejected_at too_big [Key ''body'']
          (z_array (CardElementSchema U) (Some 50) [Key ''body''] (JArr xs))"
    using big by (rule array_too_big)
  then show ?thesis
    unfolding AdaptiveCardSchema_def doc body_union
    by (intro rejected_at_object [of "''body''" "has_key (JObj kvs) ''body''"])
       (simp_all add: zfield_def body [unfolded doc])
qed

text \<open>
  C6. A card whose \<open>body\<close> has more than 50 elements fails to parse, with \<open>too_big\<close>
  reported at \<open>body\<close>. A \<open>FactSet\<close> element with more than 10 facts, at any place in the
  card, makes parsing fail with \<open>too_big\<close> reported at the path of its \<open>facts\<close>. The arrays
  \<open>Container.items\<close>, \<open>ColumnSet.columns\<close> and \<open>Column.items\<close> are not bounded: a card
  holding such an array of well-formed members parses, whatever its length.
\<close>

theorem array_length_bounds:
  "(\<forall>xs. get_prop doc ''body'' = JArr xs \<and> length xs > 50 \<longrightarrow>
      (\<exists>iss. parse (AdaptiveCardSchema is_url) doc = Inl iss \<and>
             list_ex (reports too_big [Key ''body'']) iss))
   \<and> (\<forall>p n fs. element_at doc p n \<and> get_prop n ''type'' = JStr ''FactSet'' \<and>
          get_prop n ''facts'' = JArr fs \<and> length fs > 10 \<longrightarrow>
      (\<exists>iss. parse (AdaptiveCardSchema is_url) doc = Inl iss \<and>
             list_ex (reports too_big (p @ [Key ''facts''])) iss))
   \<and> (\<forall>items. list_all (wf_element is_url) items \<longrightarrow>
      (\<exists>v. parse (AdaptiveCardSchema is_url)
              (js_of_card (card_of_body [Container items None None None])) = Inr v))
   \<and> (\<forall>columns. list_all (wf_column is_url) columns \<longrightarrow>
      (\<exists>v. parse (AdaptiveCardSchema is_url)
              (js_of_card (card_of_body [ColumnSet columns None None])) = Inr v))
   \<and> (\<forall>items. list_all (wf_element is_url) items \<longrightarrow>
      (\<exists>v. parse (AdaptiveCardSchema is_url)
              (js_of_card (card_of_body [ColumnSet [Column None (Some items) None None] None None]))
            = Inr v))"
proof (intro conjI allI impI)
  fix xs assume "get_prop doc ''body'' = JArr xs \<and> length xs > 50"
  then have "rejected_at too_big [Key ''body''] (AdaptiveCardSchema is_url [] doc)"
    using body_too_big by blast
  then show "\<exists>iss. parse (AdaptiveCardSchema is_url) doc = Inl iss \<and>
             list_ex (reports too_big [Key ''body'']) iss"
    by (rule rejected_parse)
next
  fix p n fs
  assume a: "element_at doc p n \<and> get_prop n ''type'' = JStr ''FactSet'' \<and>
          get_prop n ''facts'' = JArr fs \<and> length fs > 10"
  then have "rejected_at too_big (p @ [Key ''facts'']) (CardElementSchema is_url p n)"
    using FactSet_too_big by blast
  with a have "rejected_at too_big (p @ [Key ''facts'']) (AdaptiveCardSchema is_url [] doc)"
    using element_rejected by blast
  then show "\<exists>iss. parse (AdaptiveCardSchema is_url) doc = Inl iss \<and>
             list_ex (reports too_big (p @ [Key ''facts''])) iss"
    by (rule rejected_parse)
next
  fix items assume "list_all (wf_element is_url) items"
  then have "wf_card is_url (card_of_body [Container items None None None])"
    by (simp add: wf_card_def card_of_body_def one_of_def)
  then show "\<exists>v. parse (AdaptiveCardSchema is_url)
              (js_of_card (card_of_body [Container items None None None])) = Inr v"
    by (simp add: parse_def card_OK OK_def)
next
  fix columns assume "list_all (wf_column is_url) columns"
  then have "wf_card is_url (card_of_body [ColumnSet columns None None])"
    by (simp add: wf_card_def card_of_body_def one_of_def)
  then show "\<exists>v. parse (AdaptiveCardSchema is_url)
              (js_of_card (card_of_body [ColumnSet columns None None])) = Inr v"
    by (simp add: parse_def card_OK OK_def)
next
  fix items assume "list_all (wf_element is_url) items"
  then have "wf_card is_url (card_of_body [ColumnSet [Column None (Some items) None None] None None])"
    by (simp add: wf_card_def card_of_body_def one_of_def)
  then show "\<exists>v. parse (AdaptiveCardSchema is_url)
              (js_of_card (card_of_body [ColumnSet [Column None (Some items) None None] None None]))
            = Inr v"
    by (simp add: parse_def card_OK OK_def)
qed

lemma big_facts_at:
  "element_at big_facts_doc [Key ''body'', Idx 0, Key ''items'', Idx 0] big_facts"
proof -
  let ?ct = "JObj [(''type'', JStr ''Container''), (''items'', JArr [big_facts])]"
  have "element_at big_facts_doc [Key ''body'', Idx 0] ([?ct] ! 0)"
    by (rule in_body) (simp_all add: big_facts_doc_def get_prop.simps)
  then have "element_at big_facts_doc [Key ''body'', Idx 0] ?ct"
    by simp
  then have "element_at big_facts_doc ([Key ''body'', Idx 0] @ [Key ''items'', Idx 0])
               ([big_facts] ! 0)"
    by (rule in_container [where xs = "[big_facts]"]) (simp_all add: get_prop.simps)
  then show ?thesis by simp
qed

theorem array_length_bounds_witness:
  "(\<exists>iss. parse (AdaptiveCardSchema sample_is_url) big_body_doc = Inl iss \<and>
          list_ex (reports too_big [Key ''body'']) iss)
   \<and> (\<exists>iss. parse (AdaptiveCardSchema sample_is_url) big_facts_doc = Inl iss \<and>
          list_ex (reports too_big [Key ''body'', Idx 0, Key ''items'', Idx 0, Key ''facts'']) iss)
   \<and> (\<exists>v. parse (AdaptiveCardSchema sample_is_url)
             (js_of_card (card_of_body
                [Container (replicate 60 (TextBlock (plain_text ''x''))) None None None])) = Inr v)
   \<and> (\<exists>v. parse (AdaptiveCardSchema sample_is_url)
             (js_of_card (card_of_body
                [ColumnSet (replicate 60 (Column None None None None)) None None])) = Inr v)
   \<and> (\<exists>v. parse (AdaptiveCardSchema sample_is_url)
             (js_of_card (card_of_body
                [ColumnSet [Column None (Some (replicate 60 (TextBlock (plain_text ''x''))))
                              None None] None None])) = Inr v)"
proof -
  have body: "get_prop big_body_doc ''body'' = JArr (replicate 51 (text_js ''x''))"
    by (simp add: big_body_doc_def get_prop.simps)
  have facts: "get_prop big_facts ''type'' = JStr ''FactSet''"
    "get_prop big_facts ''facts'' = JArr (replicate 11 fact_js)"
    by (simp_all add: big_facts_def get_prop.simps)
  have texts: "list_all (wf_element sample_is_url) (replicate 60 (TextBlock (plain_text ''x'')))"
    by (simp add: list_all_iff plain_text_def wf_text_block_def one_of_def)
  have cols: "list_all (wf_column sample_is_url) (replicate 60 (Column None None None None))"
    by (simp add: list_all_iff one_of_def)
  note b = array_length_bounds [of big_body_doc sample_is_url]
  note f = array_length_bounds [of big_facts_doc sample_is_url]
  from b body have 1: "\<exists>iss. parse (AdaptiveCardSchema sample_is_url) big_body_doc = Inl iss \<and>
          list_ex (reports too_big [Key ''body'']) iss"
    by simp
  from f big_facts_at facts
  have 2: "\<exists>iss. parse (AdaptiveCardSchema sample_is_url) big_facts_doc = Inl iss \<and>
          list_ex (reports too_big ([Key ''body'', Idx 0, Key ''items'', Idx 0] @ [Key ''facts''])) iss"
  proof -
    have "length (replicate 11 fact_js) > 10" by simp
    with f big_facts_at facts show ?thesis by blast
  qed
  from b texts cols show ?thesis
    using 1 2 by simp
qed

text \<open>
  C8. Let an element of a card (in \<open>body\<close>, or nested in containers and columns) have
  type \<open>Image\<close>. If its \<open>url\<close> is a string that fails the URL test, parsing the card
  fails and reports \<open>invalid_string\<close> at the path of that \<open>url\<close>; if its \<open>url\<close> is not a
  string at all, parsing fails and reports \<open>invalid_type\<close> there. Either way no parsed
  card is returned.
\<close>

theorem image_url_rejected:
  assumes "element_at doc p n" and "get_prop n ''type'' = JStr ''Image''"
  shows "(\<forall>s. get_prop n ''url'' = JStr s \<and> \<not> is_url s \<longrightarrow>
            (\<exists>iss. parse (AdaptiveCardSchema is_url) doc = Inl iss \<and>
                   list_ex (reports invalid_string (p @ [Key ''url''])) iss))
       \<and> ((\<forall>s. get_prop n ''url'' \<noteq> JStr s) \<longrightarrow>
            (\<exists>iss. parse (AdaptiveCardSchema is_url) doc = Inl iss \<and>
                   list_ex (reports invalid_type (p @ [Key ''url''])) iss))"
proof (intro conjI allI impI)
  fix s assume "get_prop n ''url'' = JStr s \<and> \<not> is_url s"
  then have "rejected_at invalid_string (p @ [Key ''url'']) (CardElementSchema is_url p n)"
    using Image_bad_url(1) [OF assms(2)] by blast
  with assms(1) have "rejected_at invalid_string (p @ [Key ''url'']) (AdaptiveCardSchema is_url [] doc)"
    by (rule element_rejected)
  then show "\<exists>iss. parse (AdaptiveCardSchema is_url) doc = Inl iss \<and>
                   list_ex (reports invalid_string (p @ [Key ''url''])) iss"
    by (rule rejected_parse)
next
  assume "\<forall>s. get_prop n ''url'' \<noteq> JStr s"
  then have "rejected_at invalid_type (p @ [Key ''url'']) (CardElementSchema is_url p n)"
    by (rule Image_bad_url(2) [OF assms(2)])
  with assms(1) have "rejected_at invalid_type (p @ [Key ''url'']) (AdaptiveCardSchema is_url [] doc)"
    by (rule element_rejected)
  then show "\<exists>iss. parse (AdaptiveCardSchema is_url) doc = Inl iss \<and>
                   list_ex (reports invalid_type (p @ [Key ''url''])) iss"
    by (rule rejected_parse)
qed

lemma bad_image_at:
  "element_at bad_image_doc
     [Key ''body'', Idx 1, Key ''columns'', Idx 0, Key ''items'', Idx 0] bad_image"
proof -
  let ?cs = "JObj [(''type'', JStr ''ColumnSet''),
                (''columns'', JArr [JObj [(''type'', JStr ''Column''),
                                          (''items'', JArr [bad_image])]])]"
  have "element_at bad_image_doc [Key ''body'', Idx 1] ([text_js ''x'', ?cs] ! 1)"
    by (rule in_body) (simp_all add: bad_image_doc_def get_prop.simps)
  then have "element_at bad_image_doc [Key ''body'', Idx 1] ?cs"
    by simp
  then have "element_at bad_image_doc
               ([Key ''body'', Idx 1] @ [Key ''columns'', Idx 0, Key ''items'', Idx 0])
               ([bad_image] ! 0)"
    by (rule in_column [where j = 0 and xs = "[bad_image]" and
          cs = "[JObj [(''type'', JStr ''Column''), (''items'', JArr [bad_image])]]"])
       (simp_all add: get_prop.simps)
  then show ?thesis by simp
qed

theorem image_url_rejected_witness:
  "\<not> sample_is_url ''not a url''
   \<and> (\<exists>iss. parse (AdaptiveCardSchema sample_is_url) bad_image_doc = Inl iss \<and>
          list_ex (reports invalid_string
                     [Key ''body'', Idx 1, Key ''columns'', Idx 0, Key ''items'', Idx 0, Key ''url''])
            iss)"
proof -
  have ty: "get_prop bad_image ''type'' = JStr ''Image''"
    and url: "get_prop bad_image ''url'' = JStr ''not a url''"
    by (simp_all add: bad_image_def get_prop.simps)
  have bad: "\<not> sample_is_url ''not a url''"
    by (simp add: sample_is_url_def)
  from image_url_rejected [OF bad_image_at ty, of sample_is_url] url bad
  show ?thesis by simp
qed

end
